theory Spec2Isabelle
  imports Main "HOL-Library.Word"
begin

unbundle bit_operations_syntax

section \<open>Egress dispatcher (package proxy)\<close>

text \<open>
  The proxy pool of \<^verbatim>\<open>proxy.Client\<close>. Go's \<^verbatim>\<open>int32\<close> and \<^verbatim>\<open>uint32\<close> are 32-bit words,
  \<^verbatim>\<open>int\<close> is the 64-bit integer of the usual targets, so \<^verbatim>\<open>int(startIdx)\<close> is the
  unsigned value of the cursor. \<^verbatim>\<open>time.Time\<close> is an abstract integer instant handed in
  by the caller. A \<^verbatim>\<open>*ProxyStatus\<close> is an index into the \<^verbatim>\<open>proxies\<close> slice, whose
  length never changes after \<^verbatim>\<open>NewClient\<close>. The mutex and the atomic operations
  serialise the accesses; the model is the sequential behaviour of one call at a time.
\<close>

type_synonym time = int

record ProxyConfig =
  URL :: string
  Username :: string
  Password :: string

record ProxyStatus =
  Config :: ProxyConfig
  Healthy :: bool
  FailCount :: "32 word"
  LastChecked :: time
  LastUsed :: time

record Client =
  ProxyEnabled :: bool
  ProxyRetryCount :: int
  proxies :: "ProxyStatus list"
  proxyClients :: "string set"
  currentIdx :: "32 word"

text \<open>\<^verbatim>\<open>NewClient\<close>: every configured proxy starts healthy with a zero counter and gets an
  HTTP client stored under its URL.\<close>

definition NewClient :: "bool \<Rightarrow> int \<Rightarrow> ProxyConfig list \<Rightarrow> Client" where
  "NewClient enabled retry ps =
     (if enabled \<and> 0 < length ps
      then \<lparr>ProxyEnabled = enabled, ProxyRetryCount = retry,
            proxies = map (\<lambda>p. \<lparr>Config = p, Healthy = True, FailCount = 0,
                                  LastChecked = 0, LastUsed = 0\<rparr>) ps,
            proxyClients = set (map URL ps), currentIdx = 0\<rparr>
      else \<lparr>ProxyEnabled = enabled, ProxyRetryCount = retry, proxies = [],
            proxyClients = {}, currentIdx = 0\<rparr>)"

text \<open>\<^verbatim>\<open>checkProxy\<close>: one health probe of the path at index \<open>i\<close>; \<open>ok\<close> is whether the
  probe request came back without a transport error.\<close>

definition checkProxy :: "bool \<Rightarrow> time \<Rightarrow> nat \<Rightarrow> Client \<Rightarrow> Client" where
  "checkProxy ok now i c =
     (let p = proxies c ! i in
      if URL (Config p) \<notin> proxyClients c then c
      else if \<not> ok then
        (let p1 = p\<lparr>FailCount := FailCount p + 1\<rparr>;
             p2 = (if 3 \<le>s FailCount p1 then p1\<lparr>Healthy := False\<rparr> else p1)
         in c\<lparr>proxies := (proxies c)[i := p2]\<rparr>)
      else c\<lparr>proxies := (proxies c)[i := p\<lparr>Healthy := True, FailCount := 0,
                                              LastChecked := now\<rparr>]\<rparr>)"

text \<open>The scan of \<^verbatim>\<open>getNextProxy\<close>: the indices \<open>(start + i) mod n\<close> for
  \<open>i = 0, \<dots>, n - 1\<close>, in that order, stopping at the first healthy one.\<close>

definition scan_order :: "nat \<Rightarrow> nat \<Rightarrow> nat list" where
  "scan_order start n = map (\<lambda>i. (start + i) mod n) [0..<n]"

definition getNextProxy :: "time \<Rightarrow> Client \<Rightarrow> nat option \<times> Client" where
  "getNextProxy now c =
     (if length (proxies c) = 0 then (None, c)
      else
        (let startIdx = currentIdx c + 1;
             c1 = c\<lparr>currentIdx := startIdx\<rparr>
         in case List.find (\<lambda>idx. Healthy (proxies c ! idx))
                   (scan_order (unat startIdx) (length (proxies c))) of
              Some idx \<Rightarrow>
                (Some idx,
                 c1\<lparr>proxies := (proxies c)[idx := (proxies c ! idx)\<lparr>LastUsed := now\<rparr>]\<rparr>)
            | None \<Rightarrow> (Some 0, c1)))"

definition markProxyFailed :: "nat option \<Rightarrow> Client \<Rightarrow> Client" where
  "markProxyFailed po c =
     (case po of
        None \<Rightarrow> c
      | Some i \<Rightarrow>
          (let p = proxies c ! i;
               p1 = p\<lparr>FailCount := FailCount p + 1\<rparr>;
               p2 = (if word_of_int (ProxyRetryCount c) \<le>s FailCount p1
                     then p1\<lparr>Healthy := False\<rparr> else p1)
           in c\<lparr>proxies := (proxies c)[i := p2]\<rparr>))"

text \<open>
  \<^verbatim>\<open>Do\<close>. The network is a parameter: \<open>net k path\<close> is what the \<open>k\<close>-th attempt of this
  call returns when sent through \<open>path\<close> (\<open>None\<close> is the direct client, \<open>Some i\<close> the
  client of proxy \<open>i\<close>): \<open>Inl\<close> a transport error, \<open>Inr\<close> a response of any status.
  \<open>clock k\<close> is \<^verbatim>\<open>time.Now()\<close> at the \<open>k\<close>-th selection. The result is the triple of the
  source (response or error, the name of the path used) and the client afterwards.
\<close>

fun Do_loop :: "(nat \<Rightarrow> nat option \<Rightarrow> 'e + 'r) \<Rightarrow> (nat \<Rightarrow> time) \<Rightarrow> nat \<Rightarrow> nat \<Rightarrow> Client
    \<Rightarrow> ('e + 'r) \<times> string \<times> Client" where
  "Do_loop net clock 0 k c = (net k None, ''direct(fallback)'', c)"
| "Do_loop net clock (Suc n) k c =
     (let (proxy, c1) = getNextProxy (clock k) c;
          proxyURL = (case proxy of None \<Rightarrow> ''unknown''
                      | Some i \<Rightarrow> URL (Config (proxies c1 ! i)))
      in case net k proxy of
           Inr resp \<Rightarrow> (Inr resp, proxyURL, c1)
         | Inl err \<Rightarrow> Do_loop net clock n (Suc k) (markProxyFailed proxy c1))"

definition Do :: "(nat \<Rightarrow> nat option \<Rightarrow> 'e + 'r) \<Rightarrow> (nat \<Rightarrow> time) \<Rightarrow> Client
    \<Rightarrow> ('e + 'r) \<times> string \<times> Client" where
  "Do net clock c =
     (if \<not> ProxyEnabled c \<or> length (proxies c) = 0 then (net 0 None, ''direct'', c)
      else Do_loop net clock (nat (ProxyRetryCount c)) 0 c)"

text \<open>\<open>n\<close> consecutive selections, one after the other on the same client, with nothing
  else touching the pool in between: the indices returned, in order.\<close>

fun selections :: "nat \<Rightarrow> time \<Rightarrow> Client \<Rightarrow> nat option list" where
  "selections 0 now c = []"
| "selections (Suc n) now c =
     (let (p, c1) = getNextProxy now c in p # selections n now c1)"

text \<open>The health table: what the claims about health speak of.\<close>

definition health :: "Client \<Rightarrow> (bool \<times> 32 word) list" where
  "health c = map (\<lambda>p. (Healthy p, FailCount p)) (proxies c)"

subsection \<open>Concrete pools\<close>

definition mk_status :: "string \<Rightarrow> bool \<Rightarrow> 32 word \<Rightarrow> ProxyStatus" where
  "mk_status u h f = \<lparr>Config = \<lparr>URL = u, Username = [], Password = []\<rparr>, Healthy = h,
     FailCount = f, LastChecked = 0, LastUsed = 0\<rparr>"

text \<open>Four paths, the two in the middle unhealthy, the cursor at its initial value.\<close>

definition pool_gap :: Client where
  "pool_gap = \<lparr>ProxyEnabled = True, ProxyRetryCount = 3,
     proxies = [mk_status ''http://p0'' True 0, mk_status ''http://p1'' False 3,
                mk_status ''http://p2'' False 3, mk_status ''http://p3'' True 0],
     proxyClients = {''http://p0'', ''http://p1'', ''http://p2'', ''http://p3''},
     currentIdx = 0\<rparr>"

text \<open>Two paths, both unhealthy.\<close>

definition pool_down :: Client where
  "pool_down = \<lparr>ProxyEnabled = True, ProxyRetryCount = 3,
     proxies = [mk_status ''http://p0'' False 3, mk_status ''http://p1'' False 4],
     proxyClients = {''http://p0'', ''http://p1''}, currentIdx = 5\<rparr>"

text \<open>Seven healthy paths, the cursor four steps before the 32-bit wrap-around.\<close>

definition pool_wrap :: Client where
  "pool_wrap = \<lparr>ProxyEnabled = True, ProxyRetryCount = 3,
     proxies = map (\<lambda>u. mk_status u True 0)
       [''http://p0'', ''http://p1'', ''http://p2'', ''http://p3'', ''http://p4'',
        ''http://p5'', ''http://p6''],
     proxyClients = {''http://p0'', ''http://p1'', ''http://p2'', ''http://p3'',
        ''http://p4'', ''http://p5'', ''http://p6''},
     currentIdx = 4294967292\<rparr>"

text \<open>The client \<^verbatim>\<open>NewClient\<close> builds for one configured proxy and a retry budget of 3,
  and a network whose first attempt fails and whose later attempts succeed.\<close>

definition pool_one :: Client where
  "pool_one = NewClient True 3 [\<lparr>URL = ''http://p0'', Username = [], Password = []\<rparr>]"

definition net_fail_once :: "nat \<Rightarrow> nat option \<Rightarrow> unit + unit" where
  "net_fail_once k path = (if k = 0 then Inl () else Inr ())"

section \<open>Client-facing types (package handler)\<close>

text \<open>
  The structs of the handler package. Field names are those of the source; where two
  structs share a field name the struct's name is put in front. Go strings are byte
  strings, as \<^typ>\<open>string\<close> is. A pointer that may be \<^verbatim>\<open>nil\<close> is an \<^typ>\<open>'a option\<close>.
  The sampling parameters of a request (floating point) are passed through in the raw
  body and are not part of the records.
\<close>

record ImageURL =
  ImageURL_URL :: string
  Detail :: string

record ContentPart =
  Part_Type :: string
  Part_Text :: string
  Part_ImageURL :: "ImageURL option"

record MessageContent =
  Text :: string
  Parts :: "ContentPart list"
  IsMultiPart :: bool

record Message =
  Role :: string
  Content :: MessageContent
  ReasoningContent :: string

record ErrorDetail =
  Err_Message :: string
  Err_Type :: string
  Err_Code :: string

record Usage =
  PromptTokens :: int
  CompletionTokens :: int
  TotalTokens :: int
  ReasoningTokens :: "int option"


record Delta =
  Delta_Role :: string
  Delta_Content :: string
  Delta_ReasoningContent :: string

record Choice =
  Choice_Index :: int
  Choice_Delta :: Delta
  FinishReason :: "string option"

record StreamChunk =
  Chunk_ID :: string
  Chunk_Object :: string
  Chunk_Created :: int
  Chunk_Model :: string
  Choices :: "Choice list"
  Chunk_Usage :: "Usage option"

record ChatCompletionChoice =
  CC_Index :: int
  CC_Message :: Message
  CC_FinishReason :: string

record ChatCompletionResponse =
  Resp_ID :: string
  Resp_Object :: string
  Resp_Created :: int
  Resp_Model :: string
  Resp_Choices :: "ChatCompletionChoice list"
  Resp_Usage :: "Usage option"

record Model =
  Model_ID :: string
  Model_Object :: string
  Model_Created :: int
  OwnedBy :: string
  APIProvider :: string
  Category :: string
  PersonaID :: int

record ModelsResponse =
  List_Object :: string
  Data :: "Model list"

subsection \<open>Strings\<close>

definition nl :: string where
  "nl = [CHR 0x0A]"

text \<open>\<^verbatim>\<open>strings.Join\<close>, \<^verbatim>\<open>strings.HasPrefix\<close> and \<^verbatim>\<open>strings.TrimPrefix\<close>.\<close>

fun Join :: "string list \<Rightarrow> string \<Rightarrow> string" where
  "Join [] sep = []"
| "Join [x] sep = x"
| "Join (x # y # ys) sep = x @ sep @ Join (y # ys) sep"

definition HasPrefix :: "string \<Rightarrow> string \<Rightarrow> bool" where
  "HasPrefix s pre = (length pre \<le> length s \<and> take (length pre) s = pre)"

definition TrimPrefix :: "string \<Rightarrow> string \<Rightarrow> string" where
  "TrimPrefix s pre = (if HasPrefix s pre then drop (length pre) s else s)"

subsection \<open>The response writer\<close>

text \<open>
  An \<^verbatim>\<open>http.ResponseWriter\<close> as the state the handlers change: the header map, the
  status given to \<^verbatim>\<open>WriteHeader\<close> (the first call wins), and the sequence of bodies
  written. What \<^verbatim>\<open>json.Marshal\<close> or an encoder would serialise is kept as the value
  itself: a server-sent event \<^verbatim>\<open>"data: " + json + "\n\n"\<close> is \<open>SSEChunk\<close>, the literal
  \<^verbatim>\<open>"data: [DONE]\n\n"\<close> is \<open>SSEDone\<close>. Calls of \<^verbatim>\<open>Flush\<close> change nothing that is
  recorded here.
\<close>

datatype written =
    ErrorJSON ErrorDetail
  | CompletionJSON ChatCompletionResponse
  | ModelsJSON ModelsResponse
  | SSEChunk StreamChunk
  | SSEDone

record ResponseWriter =
  Header :: "string \<rightharpoonup> string"
  Status :: "int option"
  Written :: "written list"

definition new_writer :: ResponseWriter where
  "new_writer = \<lparr>Header = Map.empty, Status = None, Written = []\<rparr>"

definition Header_Set :: "string \<Rightarrow> string \<Rightarrow> ResponseWriter \<Rightarrow> ResponseWriter" where
  "Header_Set k v w = w\<lparr>Header := (Header w)(k \<mapsto> v)\<rparr>"

definition WriteHeader :: "int \<Rightarrow> ResponseWriter \<Rightarrow> ResponseWriter" where
  "WriteHeader code w = (case Status w of None \<Rightarrow> w\<lparr>Status := Some code\<rparr> | Some _ \<Rightarrow> w)"

definition Write :: "written \<Rightarrow> ResponseWriter \<Rightarrow> ResponseWriter" where
  "Write x w = w\<lparr>Written := Written w @ [x]\<rparr>"

definition writeError :: "ResponseWriter \<Rightarrow> int \<Rightarrow> string \<Rightarrow> string \<Rightarrow> ResponseWriter" where
  "writeError w statusCode message errType =
     Write (ErrorJSON \<lparr>Err_Message = message, Err_Type = errType, Err_Code = []\<rparr>)
       (WriteHeader statusCode (Header_Set ''Content-Type'' ''application/json'' w))"

section \<open>Transcoder\<close>

text \<open>\<^verbatim>\<open>GetTextContent\<close>: the loop appends the text of every part of type \<^verbatim>\<open>"text"\<close>.\<close>

definition GetTextContent :: "MessageContent \<Rightarrow> string" where
  "GetTextContent mc =
     (if \<not> IsMultiPart mc then Text mc
      else Join (foldl (\<lambda>texts part.
                   if Part_Type part = ''text'' then texts @ [Part_Text part] else texts)
                 [] (Parts mc)) nl)"

text \<open>\<^verbatim>\<open>ConvertMessagesToSingleMessage\<close>: one loop over the messages, three roles
  recognised, no \<^verbatim>\<open>else\<close> branch.\<close>

definition ConvertMessagesToSingleMessage :: "Message list \<Rightarrow> string" where
  "ConvertMessagesToSingleMessage messages =
     Join (foldl (\<lambda>parts msg.
             (let textContent = GetTextContent (Content msg) in
              if Role msg = ''system'' then parts @ [''[System]: '' @ textContent]
              else if Role msg = ''user'' then parts @ [''[User]: '' @ textContent]
              else if Role msg = ''assistant'' then parts @ [''[Assistant]: '' @ textContent]
              else parts))
           [] messages) (nl @ nl)"

text \<open>The words of the specification for the flattening: the prefix of a role, the
  segment of a message, and the roles that have a prefix.\<close>

definition known_role :: "Message \<Rightarrow> bool" where
  "known_role m = (Role m = ''system'' \<or> Role m = ''user'' \<or> Role m = ''assistant'')"

definition role_prefix :: "string \<Rightarrow> string" where
  "role_prefix r =
     (if r = ''system'' then ''[System]: ''
      else if r = ''user'' then ''[User]: ''
      else ''[Assistant]: '')"

definition segment :: "Message \<Rightarrow> string" where
  "segment m = role_prefix (Role m) @ GetTextContent (Content m)"

definition text_message :: "string \<Rightarrow> string \<Rightarrow> Message" where
  "text_message r t = \<lparr>Role = r, Content = \<lparr>Text = t, Parts = [], IsMultiPart = False\<rparr>,
     ReasoningContent = []\<rparr>"

definition parts_message :: "string \<Rightarrow> string list \<Rightarrow> Message" where
  "parts_message r ts = \<lparr>Role = r,
     Content = \<lparr>Text = [], Parts = map (\<lambda>t. \<lparr>Part_Type = ''text'', Part_Text = t,
                                               Part_ImageURL = None\<rparr>) ts,
                IsMultiPart = True\<rparr>,
     ReasoningContent = []\<rparr>"

section \<open>JSON values and their decoding\<close>

text \<open>
  The handlers decode the same text into several Go types with \<^verbatim>\<open>json.Unmarshal\<close>. The
  reading of the text is a parameter \<open>parse\<close> of the model (\<open>None\<close> for text that is not
  JSON); what it yields is a value of the type below. A number is \<open>JInt\<close> when its
  literal is an integer literal and \<open>JFrac\<close>, with its literal, when it has a fraction
  or an exponent. The members of an object are kept in the order of the text, with
  duplicates.
\<close>

datatype json =
    JNull
  | JBool bool
  | JInt int
  | JFrac string
  | JString string
  | JArray "json list"
  | JObject "(string \<times> json) list"

text \<open>
  How \<^verbatim>\<open>encoding/json\<close> finds the struct field for a member name: the name equals the
  field's tag exactly or under case folding. For the ASCII tags of this program the
  names that fold to a tag are those equal to it once ASCII letters are put in lower
  case and the two characters that fold to ASCII letters, the long s (bytes C5 BF) and
  the Kelvin sign (bytes E2 84 AA), are replaced by \<^verbatim>\<open>s\<close> and \<^verbatim>\<open>k\<close>.
\<close>

definition ascii_lower :: "char \<Rightarrow> char" where
  "ascii_lower c =
     (let n = (of_char c :: nat) in if 65 \<le> n \<and> n \<le> 90 then char_of (n + 32) else c)"

fun fold_name :: "string \<Rightarrow> string" where
  "fold_name (c1 # c2 # c3 # cs) =
     (if c1 = CHR 0xE2 \<and> c2 = CHR 0x84 \<and> c3 = CHR 0xAA then CHR ''k'' # fold_name cs
      else if c1 = CHR 0xC5 \<and> c2 = CHR 0xBF then CHR ''s'' # fold_name (c3 # cs)
      else ascii_lower c1 # fold_name (c2 # c3 # cs))"
| "fold_name [c1, c2] =
     (if c1 = CHR 0xC5 \<and> c2 = CHR 0xBF then [CHR ''s'']
      else ascii_lower c1 # fold_name [c2])"
| "fold_name [c1] = [ascii_lower c1]"
| "fold_name [] = []"

definition field_match :: "string \<Rightarrow> string \<Rightarrow> bool" where
  "field_match tag name = (fold_name name = fold_name tag)"

text \<open>
  Decoding a value into a field. An \<^verbatim>\<open>int\<close> field (64 bits on a 64-bit platform) takes
  an integer literal in range, a \<^verbatim>\<open>string\<close> field takes a string; \<^verbatim>\<open>null\<close> leaves either
  as it is; anything else is a type error (\<open>None\<close>), which makes \<^verbatim>\<open>json.Unmarshal\<close>
  return an error.
\<close>

definition in_int64 :: "int \<Rightarrow> bool" where
  "in_int64 n = (- (2 ^ 63) \<le> n \<and> n < 2 ^ 63)"

definition int_field :: "json \<Rightarrow> int \<Rightarrow> int option" where
  "int_field v old =
     (case v of
        JInt n \<Rightarrow> if in_int64 n then Some n else None
      | JNull \<Rightarrow> Some old
      | _ \<Rightarrow> None)"

definition string_field :: "json \<Rightarrow> string \<Rightarrow> string option" where
  "string_field v old =
     (case v of
        JString s \<Rightarrow> Some s
      | JNull \<Rightarrow> Some old
      | _ \<Rightarrow> None)"


section \<open>Streaming translator and aggregator\<close>

text \<open>
  An upstream body read through a \<^verbatim>\<open>bufio.Scanner\<close> is the list of lines that
  \<^verbatim>\<open>scanner.Text()\<close> yielded, followed by what \<^verbatim>\<open>scanner.Err()\<close> returns when the loop
  has ended (\<open>None\<close> at the clean end of the body, an error for a failed read or an
  over-long line). \<^verbatim>\<open>json.Unmarshal\<close> is library code and a parameter of the handlers:
  \<open>None\<close> when it returns an error, the decoded value otherwise.
\<close>

subsection \<open>Direct dialect, client not streaming\<close>

record nonstream_state =
  ns_id :: string
  ns_model :: string
  ns_content :: string
  ns_reasoningContent :: string
  ns_finishReason :: string
  ns_usage :: "Usage option"
  ns_chunkCount :: nat

definition nonstream_init :: nonstream_state where
  "nonstream_init = \<lparr>ns_id = [], ns_model = [], ns_content = [], ns_reasoningContent = [],
     ns_finishReason = [], ns_usage = None, ns_chunkCount = 0\<rparr>"

text \<open>The body of \<^verbatim>\<open>for _, choice := range chunk.Choices\<close>.\<close>

definition nonstream_choice :: "nonstream_state \<Rightarrow> Choice \<Rightarrow> nonstream_state" where
  "nonstream_choice st choice =
     st\<lparr>ns_content := ns_content st @ Delta_Content (Choice_Delta choice),
        ns_reasoningContent := ns_reasoningContent st @ Delta_ReasoningContent (Choice_Delta choice),
        ns_finishReason := (case FinishReason choice of None \<Rightarrow> ns_finishReason st
                            | Some f \<Rightarrow> f)\<rparr>"

text \<open>What one decoded chunk does to the accumulators.\<close>

definition nonstream_chunk :: "nonstream_state \<Rightarrow> StreamChunk \<Rightarrow> nonstream_state" where
  "nonstream_chunk st chunk =
     (let st1 = st\<lparr>ns_id := (if ns_id st = [] then Chunk_ID chunk else ns_id st),
                    ns_model := (if ns_model st = [] then Chunk_Model chunk else ns_model st)\<rparr>;
          st2 = foldl nonstream_choice st1 (Choices chunk);
          st3 = (case Chunk_Usage chunk of None \<Rightarrow> st2
                 | Some u \<Rightarrow> st2\<lparr>ns_usage := Some u\<rparr>)
      in st3\<lparr>ns_chunkCount := ns_chunkCount st3 + 1\<rparr>)"

text \<open>The text handed to \<^verbatim>\<open>json.Unmarshal\<close> for a line: the line without its
  \<^verbatim>\<open>"data: "\<close> prefix.\<close>

definition chunk_text :: "string \<Rightarrow> string" where
  "chunk_text line = (if HasPrefix line ''data: '' then TrimPrefix line ''data: '' else line)"

text \<open>One iteration of \<^verbatim>\<open>for scanner.Scan()\<close>.\<close>

definition nonstream_line :: "(string \<Rightarrow> StreamChunk option) \<Rightarrow> nonstream_state \<Rightarrow> string
    \<Rightarrow> nonstream_state" where
  "nonstream_line unmarshal st line =
     (if line = [] \<or> line = ''data: [DONE]'' then st
      else case unmarshal (chunk_text line) of
             None \<Rightarrow> st
           | Some chunk \<Rightarrow> nonstream_chunk st chunk)"

definition handleNonStreamResponse :: "(string \<Rightarrow> StreamChunk option) \<Rightarrow> time \<Rightarrow> string list
    \<Rightarrow> string option \<Rightarrow> ResponseWriter \<Rightarrow> ResponseWriter" where
  "handleNonStreamResponse unmarshal now lines scan_err w =
     (let st = foldl (nonstream_line unmarshal) nonstream_init lines in
      case scan_err of
        Some err \<Rightarrow> writeError w 502 ''Failed to read upstream response'' ''server_error''
      | None \<Rightarrow>
          (let msg0 = \<lparr>Role = ''assistant'',
                       Content = \<lparr>Text = ns_content st, Parts = [], IsMultiPart = False\<rparr>,
                       ReasoningContent = []\<rparr>;
               msg = (if 0 < length (ns_reasoningContent st)
                      then msg0\<lparr>ReasoningContent := ns_reasoningContent st\<rparr> else msg0);
               response = \<lparr>Resp_ID = ns_id st, Resp_Object = ''chat.completion'',
                            Resp_Created = now, Resp_Model = ns_model st,
                            Resp_Choices = [\<lparr>CC_Index = 0, CC_Message = msg,
                                             CC_FinishReason = ns_finishReason st\<rparr>],
                            Resp_Usage = ns_usage st\<rparr>
           in Write (CompletionJSON response)
                (WriteHeader 200 (Header_Set ''Content-Type'' ''application/json'' w))))"

text \<open>
  The chunk sequence the handler consumes from a body: the chunks decoded, in arrival
  order, from the lines that are neither empty nor the end sentinel.
\<close>

definition chunks_seen :: "(string \<Rightarrow> StreamChunk option) \<Rightarrow> string list \<Rightarrow> StreamChunk list" where
  "chunks_seen unmarshal lines =
     List.map_filter (\<lambda>line. if line = [] \<or> line = ''data: [DONE]'' then None
                              else unmarshal (chunk_text line)) lines"

text \<open>The first non-empty string of a list and the last element of a list, with the
  zero value when there is none.\<close>

definition first_nonempty :: "string list \<Rightarrow> string" where
  "first_nonempty xs = (case filter (\<lambda>s. s \<noteq> []) xs of [] \<Rightarrow> [] | x # _ \<Rightarrow> x)"

definition last_or :: "'a \<Rightarrow> 'a list \<Rightarrow> 'a" where
  "last_or d xs = (case rev xs of [] \<Rightarrow> d | x # _ \<Rightarrow> x)"

subsection \<open>Session dialect\<close>

record SendMessageResponse =
  UserMessageID :: int
  ReservedAssistantMessageID :: int

record Placement =
  TurnIndex :: int
  TabIndex :: int
  SubTurnIndex :: "int option"

text \<open>\<^verbatim>\<open>FinalDocuments\<close> is an \<^verbatim>\<open>interface{}\<close>: the decoded value, when one is present.\<close>

record EventObj =
  Obj_Type :: string
  Obj_Content :: string
  FinalDocuments :: "json option"
  StopReason :: string

record ChatSessionStreamEvent =
  Ev_Placement :: Placement
  Obj :: EventObj

record session_state =
  ss_w :: ResponseWriter
  ss_chunkCount :: nat
  ss_contentBuilder :: string
  ss_firstChunk :: bool

text \<open>The three chunks the handler sends.\<close>

definition role_chunk :: "string \<Rightarrow> int \<Rightarrow> string \<Rightarrow> StreamChunk" where
  "role_chunk cid created model =
     \<lparr>Chunk_ID = cid, Chunk_Object = ''chat.completion.chunk'', Chunk_Created = created,
      Chunk_Model = model,
      Choices = [\<lparr>Choice_Index = 0,
                  Choice_Delta = \<lparr>Delta_Role = ''assistant'', Delta_Content = [],
                                  Delta_ReasoningContent = []\<rparr>,
                  FinishReason = None\<rparr>],
      Chunk_Usage = None\<rparr>"

definition content_chunk :: "string \<Rightarrow> int \<Rightarrow> string \<Rightarrow> string \<Rightarrow> StreamChunk" where
  "content_chunk cid created model content =
     \<lparr>Chunk_ID = cid, Chunk_Object = ''chat.completion.chunk'', Chunk_Created = created,
      Chunk_Model = model,
      Choices = [\<lparr>Choice_Index = 0,
                  Choice_Delta = \<lparr>Delta_Role = [], Delta_Content = content,
                                  Delta_ReasoningContent = []\<rparr>,
                  FinishReason = None\<rparr>],
      Chunk_Usage = None\<rparr>"

definition final_chunk :: "string \<Rightarrow> int \<Rightarrow> string \<Rightarrow> StreamChunk" where
  "final_chunk cid created model =
     \<lparr>Chunk_ID = cid, Chunk_Object = ''chat.completion.chunk'', Chunk_Created = created,
      Chunk_Model = model,
      Choices = [\<lparr>Choice_Index = 0,
                  Choice_Delta = \<lparr>Delta_Role = [], Delta_Content = [],
                                  Delta_ReasoningContent = []\<rparr>,
                  FinishReason = Some ''stop''\<rparr>],
      Chunk_Usage = None\<rparr>"

text \<open>The \<^verbatim>\<open>switch event.Obj.Type\<close>.\<close>

definition session_event :: "string \<Rightarrow> int \<Rightarrow> string \<Rightarrow> bool \<Rightarrow> session_state
    \<Rightarrow> ChatSessionStreamEvent \<Rightarrow> session_state" where
  "session_event cid created model stream st event =
     (if Obj_Type (Obj event) = ''message_start'' then
        (if stream then st\<lparr>ss_w := Write (SSEChunk (role_chunk cid created model)) (ss_w st)\<rparr>
         else st)
      else if Obj_Type (Obj event) = ''message_delta'' then
        (let content = Obj_Content (Obj event);
             st1 = st\<lparr>ss_contentBuilder := ss_contentBuilder st @ content,
                       ss_chunkCount := ss_chunkCount st + 1\<rparr>
         in if stream
            then st1\<lparr>ss_w := Write (SSEChunk (content_chunk cid created model content)) (ss_w st1)\<rparr>
            else st1)
      else if Obj_Type (Obj event) = ''stop'' then
        (if stream
         then st\<lparr>ss_w := Write SSEDone
                            (Write (SSEChunk (final_chunk cid created model)) (ss_w st))\<rparr>
         else st)
      else st)"

text \<open>One iteration of \<^verbatim>\<open>for scanner.Scan()\<close>: the loop has no \<^verbatim>\<open>break\<close> and no
  \<^verbatim>\<open>return\<close>, so every line of the body goes through it.\<close>

definition session_line :: "(string \<Rightarrow> SendMessageResponse option)
    \<Rightarrow> (string \<Rightarrow> ChatSessionStreamEvent option) \<Rightarrow> string \<Rightarrow> int \<Rightarrow> string \<Rightarrow> bool
    \<Rightarrow> session_state \<Rightarrow> string \<Rightarrow> session_state" where
  "session_line unmarshalAck unmarshalEvent cid created model stream st line =
     (if line = [] then st
      else if ss_firstChunk st \<and> unmarshalAck line \<noteq> None then st\<lparr>ss_firstChunk := False\<rparr>
      else
        (let st1 = st\<lparr>ss_firstChunk := False\<rparr> in
         case unmarshalEvent line of
           None \<Rightarrow> st1
         | Some event \<Rightarrow> session_event cid created model stream st1 event))"

definition session_init :: "ResponseWriter \<Rightarrow> session_state" where
  "session_init w = \<lparr>ss_w = w, ss_chunkCount = 0, ss_contentBuilder = [], ss_firstChunk = True\<rparr>"

definition session_loop :: "(string \<Rightarrow> SendMessageResponse option)
    \<Rightarrow> (string \<Rightarrow> ChatSessionStreamEvent option) \<Rightarrow> string \<Rightarrow> int \<Rightarrow> string \<Rightarrow> bool
    \<Rightarrow> session_state \<Rightarrow> string list \<Rightarrow> session_state" where
  "session_loop unmarshalAck unmarshalEvent cid created model stream st lines =
     foldl (session_line unmarshalAck unmarshalEvent cid created model stream) st lines"

text \<open>
  \<^verbatim>\<open>HandleChatSessionStream\<close>. \<open>flusher_ok\<close> is whether the writer is an
  \<^verbatim>\<open>http.Flusher\<close>; \<open>cid\<close> (the \<^verbatim>\<open>id\<close> of the source) and \<open>created\<close> are the values the
  handler derives from the clock before the loop. The result is the writer when the
  handler returns.
\<close>

definition HandleChatSessionStream :: "(string \<Rightarrow> SendMessageResponse option)
    \<Rightarrow> (string \<Rightarrow> ChatSessionStreamEvent option) \<Rightarrow> bool \<Rightarrow> string \<Rightarrow> int
    \<Rightarrow> ResponseWriter \<Rightarrow> string list \<Rightarrow> string option \<Rightarrow> string \<Rightarrow> bool
    \<Rightarrow> ResponseWriter" where
  "HandleChatSessionStream unmarshalAck unmarshalEvent flusher_ok cid created w lines scan_err
       model stream =
     (if \<not> flusher_ok \<and> stream
      then writeError w 500 ''Streaming not supported'' ''server_error''
      else
        (let w1 = (if stream
                   then WriteHeader 200
                          (Header_Set ''X-Accel-Buffering'' ''no''
                            (Header_Set ''Connection'' ''keep-alive''
                              (Header_Set ''Cache-Control'' ''no-cache''
                                (Header_Set ''Content-Type'' ''text/event-stream'' w))))
                   else w);
             st = session_loop unmarshalAck unmarshalEvent cid created model stream
                    (session_init w1) lines
         in case scan_err of
              Some err \<Rightarrow> ss_w st
            | None \<Rightarrow>
                (if \<not> stream then
                   Write (CompletionJSON
                       \<lparr>Resp_ID = cid, Resp_Object = ''chat.completion'', Resp_Created = created,
                        Resp_Model = model,
                        Resp_Choices = [\<lparr>CC_Index = 0,
                          CC_Message = \<lparr>Role = ''assistant'',
                            Content = \<lparr>Text = ss_contentBuilder st, Parts = [],
                                       IsMultiPart = False\<rparr>,
                            ReasoningContent = []\<rparr>,
                          CC_FinishReason = ''stop''\<rparr>],
                        Resp_Usage = None\<rparr>)
                     (WriteHeader 200
                       (Header_Set ''Content-Type'' ''application/json'' (ss_w st)))
                 else ss_w st)))"

subsection \<open>A session body and its decoding, for the examples\<close>

text \<open>
  Four lines of a session body, named by what they hold, and decoders that read them as
  \<^verbatim>\<open>json.Unmarshal\<close> reads the corresponding JSON: the acknowledgement
  \<^verbatim>\<open>{"user_message_id":1,"reserved_assistant_message_id":2}\<close> decodes into both structs
  (unknown fields are ignored, so as an event it has the empty type), and an event
  object decodes into the acknowledgement struct as well (with both ids zero).
\<close>

definition mk_event :: "string \<Rightarrow> string \<Rightarrow> ChatSessionStreamEvent" where
  "mk_event ty content =
     \<lparr>Ev_Placement = \<lparr>TurnIndex = 0, TabIndex = 0, SubTurnIndex = None\<rparr>,
      Obj = \<lparr>Obj_Type = ty, Obj_Content = content, FinalDocuments = None, StopReason = []\<rparr>\<rparr>"

definition demo_event :: "string \<Rightarrow> ChatSessionStreamEvent option" where
  "demo_event line =
     (if line = ''ack'' then Some (mk_event [] [])
      else if line = ''start'' then Some (mk_event ''message_start'' [])
      else if line = ''delta hi'' then Some (mk_event ''message_delta'' ''hi'')
      else if line = ''delta late'' then Some (mk_event ''message_delta'' ''late'')
      else if line = ''stop'' then Some (mk_event ''stop'' [])
      else None)"

definition demo_ack :: "string \<Rightarrow> SendMessageResponse option" where
  "demo_ack line =
     (if line = ''ack'' then Some \<lparr>UserMessageID = 1, ReservedAssistantMessageID = 2\<rparr>
      else if demo_event line \<noteq> None then Some \<lparr>UserMessageID = 0, ReservedAssistantMessageID = 0\<rparr>
      else None)"

subsection \<open>A direct body, for the examples\<close>

definition mk_chunk :: "string \<Rightarrow> string \<Rightarrow> string \<Rightarrow> string option \<Rightarrow> Usage option \<Rightarrow> StreamChunk" where
  "mk_chunk i m content fin u =
     \<lparr>Chunk_ID = i, Chunk_Object = ''chat.completion.chunk'', Chunk_Created = 0,
      Chunk_Model = m,
      Choices = [\<lparr>Choice_Index = 0,
                  Choice_Delta = \<lparr>Delta_Role = [], Delta_Content = content,
                                  Delta_ReasoningContent = []\<rparr>,
                  FinishReason = fin\<rparr>],
      Chunk_Usage = u\<rparr>"

definition demo_chunk :: "string \<Rightarrow> StreamChunk option" where
  "demo_chunk text =
     (if text = ''c1'' then Some (mk_chunk ''id-1'' ''m'' ''Hel'' None None)
      else if text = ''c2'' then
        Some (mk_chunk ''id-2'' [] ''lo'' None
          (Some \<lparr>PromptTokens = 1, CompletionTokens = 1, TotalTokens = 2,
                  ReasoningTokens = None\<rparr>))
      else if text = ''c3'' then
        Some (mk_chunk [] [] [] (Some ''stop'')
          (Some \<lparr>PromptTokens = 3, CompletionTokens = 2, TotalTokens = 5,
                  ReasoningTokens = None\<rparr>))
      else None)"

definition demo_body :: "string list" where
  "demo_body = [''data: c1'', [], ''data: c2'', ''garbage'', ''c3'', ''data: [DONE]'']"

subsection \<open>Decoding a session line\<close>

text \<open>
  \<^verbatim>\<open>json.Unmarshal\<close> into the structs \<^verbatim>\<open>SendMessageResponse\<close> and
  \<^verbatim>\<open>ChatSessionStreamEvent\<close>, by their field tags. Into a struct, \<^verbatim>\<open>null\<close> decodes to
  the unchanged (zero) struct; an object is decoded member by member, a member whose
  name matches no field is ignored, and a type error in any matched member makes the
  call return an error, as does every value that is neither \<^verbatim>\<open>null\<close> nor an object.
  The loops carry the struct and whether no type error has occurred.
\<close>

definition ack_member :: "SendMessageResponse \<times> bool \<Rightarrow> string \<times> json
    \<Rightarrow> SendMessageResponse \<times> bool" where
  "ack_member acc kv =
     (case acc of (r, ok) \<Rightarrow> case kv of (k, v) \<Rightarrow>
        if field_match ''user_message_id'' k then
          (case int_field v (UserMessageID r) of
             Some n \<Rightarrow> (r\<lparr>UserMessageID := n\<rparr>, ok) | None \<Rightarrow> (r, False))
        else if field_match ''reserved_assistant_message_id'' k then
          (case int_field v (ReservedAssistantMessageID r) of
             Some n \<Rightarrow> (r\<lparr>ReservedAssistantMessageID := n\<rparr>, ok) | None \<Rightarrow> (r, False))
        else (r, ok))"

definition decode_SendMessageResponse :: "json \<Rightarrow> SendMessageResponse option" where
  "decode_SendMessageResponse j =
     (let zero = \<lparr>UserMessageID = 0, ReservedAssistantMessageID = 0\<rparr> in
      case j of
        JNull \<Rightarrow> Some zero
      | JObject ms \<Rightarrow>
          (case foldl ack_member (zero, True) ms of
             (r, ok) \<Rightarrow> if ok then Some r else None)
      | _ \<Rightarrow> None)"

definition placement_member :: "Placement \<times> bool \<Rightarrow> string \<times> json \<Rightarrow> Placement \<times> bool" where
  "placement_member acc kv =
     (case acc of (p, ok) \<Rightarrow> case kv of (k, v) \<Rightarrow>
        if field_match ''turn_index'' k then
          (case int_field v (TurnIndex p) of
             Some n \<Rightarrow> (p\<lparr>TurnIndex := n\<rparr>, ok) | None \<Rightarrow> (p, False))
        else if field_match ''tab_index'' k then
          (case int_field v (TabIndex p) of
             Some n \<Rightarrow> (p\<lparr>TabIndex := n\<rparr>, ok) | None \<Rightarrow> (p, False))
        else if field_match ''sub_turn_index'' k then
          (case v of
             JNull \<Rightarrow> (p\<lparr>SubTurnIndex := None\<rparr>, ok)
           | JInt n \<Rightarrow> if in_int64 n then (p\<lparr>SubTurnIndex := Some n\<rparr>, ok) else (p, False)
           | _ \<Rightarrow> (p, False))
        else (p, ok))"

definition obj_member :: "EventObj \<times> bool \<Rightarrow> string \<times> json \<Rightarrow> EventObj \<times> bool" where
  "obj_member acc kv =
     (case acc of (ob, ok) \<Rightarrow> case kv of (k, v) \<Rightarrow>
        if field_match ''type'' k then
          (case string_field v (Obj_Type ob) of
             Some s \<Rightarrow> (ob\<lparr>Obj_Type := s\<rparr>, ok) | None \<Rightarrow> (ob, False))
        else if field_match ''content'' k then
          (case string_field v (Obj_Content ob) of
             Some s \<Rightarrow> (ob\<lparr>Obj_Content := s\<rparr>, ok) | None \<Rightarrow> (ob, False))
        else if field_match ''final_documents'' k then
          (ob\<lparr>FinalDocuments := (case v of JNull \<Rightarrow> None | _ \<Rightarrow> Some v)\<rparr>, ok)
        else if field_match ''stop_reason'' k then
          (case string_field v (StopReason ob) of
             Some s \<Rightarrow> (ob\<lparr>StopReason := s\<rparr>, ok) | None \<Rightarrow> (ob, False))
        else (ob, ok))"

definition event_member :: "ChatSessionStreamEvent \<times> bool \<Rightarrow> string \<times> json
    \<Rightarrow> ChatSessionStreamEvent \<times> bool" where
  "event_member acc kv =
     (case acc of (ev, ok) \<Rightarrow> case kv of (k, v) \<Rightarrow>
        if field_match ''placement'' k then
          (case v of
             JNull \<Rightarrow> (ev, ok)
           | JObject ms \<Rightarrow>
               (case foldl placement_member (Ev_Placement ev, True) ms of
                  (p, ok') \<Rightarrow> (ev\<lparr>Ev_Placement := p\<rparr>, ok \<and> ok'))
           | _ \<Rightarrow> (ev, False))
        else if field_match ''obj'' k then
          (case v of
             JNull \<Rightarrow> (ev, ok)
           | JObject ms \<Rightarrow>
               (case foldl obj_member (Obj ev, True) ms of
                  (ob, ok') \<Rightarrow> (ev\<lparr>Obj := ob\<rparr>, ok \<and> ok'))
           | _ \<Rightarrow> (ev, False))
        else (ev, ok))"

definition decode_ChatSessionStreamEvent :: "json \<Rightarrow> ChatSessionStreamEvent option" where
  "decode_ChatSessionStreamEvent j =
     (let zero = \<lparr>Ev_Placement = \<lparr>TurnIndex = 0, TabIndex = 0, SubTurnIndex = None\<rparr>,
                  Obj = \<lparr>Obj_Type = [], Obj_Content = [], FinalDocuments = None,
                         StopReason = []\<rparr>\<rparr> in
      case j of
        JNull \<Rightarrow> Some zero
      | JObject ms \<Rightarrow>
          (case foldl event_member (zero, True) ms of
             (ev, ok) \<Rightarrow> if ok then Some ev else None)
      | _ \<Rightarrow> None)"

text \<open>The two decoders the session handler calls on a line.\<close>

definition unmarshalAck :: "(string \<Rightarrow> json option) \<Rightarrow> string \<Rightarrow> SendMessageResponse option" where
  "unmarshalAck parse line =
     (case parse line of None \<Rightarrow> None | Some j \<Rightarrow> decode_SendMessageResponse j)"

definition unmarshalEvent :: "(string \<Rightarrow> json option) \<Rightarrow> string
    \<Rightarrow> ChatSessionStreamEvent option" where
  "unmarshalEvent parse line =
     (case parse line of None \<Rightarrow> None | Some j \<Rightarrow> decode_ChatSessionStreamEvent j)"

text \<open>The members of an object that the acknowledgement decode looks at are well typed:
  each member whose name matches one of the two fields holds an integer in range or
  \<^verbatim>\<open>null\<close>.\<close>

definition ack_typed :: "(string \<times> json) list \<Rightarrow> bool" where
  "ack_typed ms =
     list_all (\<lambda>kv. case kv of (k, v) \<Rightarrow>
                 if field_match ''user_message_id'' k
                    \<or> field_match ''reserved_assistant_message_id'' k
                 then (case v of JInt n \<Rightarrow> in_int64 n | JNull \<Rightarrow> True | _ \<Rightarrow> False)
                 else True) ms"

text \<open>
  Texts for the examples, named by what they hold, with the values a JSON reader gives
  for them:
  \<^item> \<open>ack\<close>: \<^verbatim>\<open>{"user_message_id":1,"reserved_assistant_message_id":2}\<close>;
  \<^item> \<open>delta hi\<close>: \<^verbatim>\<open>{"obj":{"type":"message_delta","content":"hi"}}\<close>;
  \<^item> \<open>bad ack delta\<close>:
    \<^verbatim>\<open>{"user_message_id":"x","obj":{"type":"message_delta","content":"hi"}}\<close>;
  \<^item> \<open>stop\<close>: \<^verbatim>\<open>{"obj":{"type":"stop"}}\<close>;
  \<^item> \<open>null\<close>: \<^verbatim>\<open>null\<close>;
  \<^item> \<open>zz\<close>, \<open>a1\<close>, \<open>k1\<close>, \<open>p1\<close>: a request body \<^verbatim>\<open>{"model":"zz"}\<close> and so on.
\<close>

definition demo_parse :: "string \<Rightarrow> json option" where
  "demo_parse text =
     (if text = ''ack'' then
        Some (JObject [(''user_message_id'', JInt 1), (''reserved_assistant_message_id'', JInt 2)])
      else if text = ''delta hi'' then
        Some (JObject [(''obj'', JObject [(''type'', JString ''message_delta''),
                                          (''content'', JString ''hi'')])])
      else if text = ''bad ack delta'' then
        Some (JObject [(''user_message_id'', JString ''x''),
                       (''obj'', JObject [(''type'', JString ''message_delta''),
                                          (''content'', JString ''hi'')])])
      else if text = ''stop'' then
        Some (JObject [(''obj'', JObject [(''type'', JString ''stop'')])])
      else if text = ''null'' then Some JNull
      else if text = ''zz'' \<or> text = ''a1'' \<or> text = ''k1'' \<or> text = ''p1'' then
        Some (JObject [(''model'', JString text)])
      else None)"

subsection \<open>The line scanner\<close>

text \<open>
  \<^verbatim>\<open>bufio.Scanner\<close> with the default \<^verbatim>\<open>ScanLines\<close> split and the buffer the handlers give
  it, \<^verbatim>\<open>scanner.Buffer(make([]byte, 64*1024), 1024*1024)\<close>. \<open>data\<close> is the bytes the
  body delivered, \<open>read_err\<close> the error that ended the reading (\<open>None\<close> for the end of
  the body). The tokens are the stretches between newlines, a last one without newline
  included when it is not empty; a trailing carriage return is dropped from each. A
  stretch that does not fit the buffer, one of \<open>maxTokenSize\<close> bytes or more, stops the
  scanner with \<^verbatim>\<open>ErrTooLong\<close> after the tokens before it; otherwise all tokens are
  delivered and \<^verbatim>\<open>Err()\<close> is the read error. The end of the reading is taken to be
  reported by a read that delivers no bytes; a reader that reports it together with its
  last bytes differs only on a last stretch of exactly \<open>maxTokenSize\<close> bytes.
\<close>

definition maxTokenSize :: nat where
  "maxTokenSize = 1024 * 1024"

fun raw_lines :: "string \<Rightarrow> string \<Rightarrow> string list" where
  "raw_lines cur [] = (if cur = [] then [] else [cur])"
| "raw_lines cur (c # cs) =
     (if c = CHR 0x0A then cur # raw_lines [] cs else raw_lines (cur @ [c]) cs)"

definition dropCR :: "string \<Rightarrow> string" where
  "dropCR t = (if t \<noteq> [] \<and> last t = CHR 0x0D then butlast t else t)"

definition ErrTooLong :: string where
  "ErrTooLong = ''bufio.Scanner: token too long''"

definition scan_body :: "string \<Rightarrow> string option \<Rightarrow> string list \<times> string option" where
  "scan_body data read_err =
     (let toks = raw_lines [] data;
          fit = takeWhile (\<lambda>t. length t < maxTokenSize) toks
      in (map dropCR fit,
          if length fit < length toks then Some ErrTooLong else read_err))"

text \<open>
  \<^verbatim>\<open>handleNonStreamResponse\<close> on the body as it is delivered: the scanner over the body,
  then the loop over its lines and the test of \<^verbatim>\<open>scanner.Err()\<close>.
\<close>

definition handleNonStreamBody :: "(string \<Rightarrow> StreamChunk option) \<Rightarrow> time \<Rightarrow> string
    \<Rightarrow> string option \<Rightarrow> ResponseWriter \<Rightarrow> ResponseWriter" where
  "handleNonStreamBody unmarshal now data read_err w =
     (case scan_body data read_err of
        (lines, scan_err) \<Rightarrow> handleNonStreamResponse unmarshal now lines scan_err w)"

section \<open>Upstream credential and request headers\<close>

subsection \<open>Credential provider (package config)\<close>

text \<open>The two constants of the source, \<^verbatim>\<open>decryptKey\<close> and \<^verbatim>\<open>encryptedAPIKey\<close>.\<close>

definition decryptKey :: "8 word list" where
  "decryptKey = [84, 104, 101, 79, 108, 100, 76, 76, 109, 45, 83, 101, 99, 117, 114, 101, 45, 50, 48, 50, 53, 45, 118, 57]"

definition encryptedAPIKey :: string where
  "encryptedAPIKey =
     ''3b073c3e0d0f3329217b6f5b6250520f2e061e58531e151a67595e384c128182'' @
     ''1a10605804194e5c23085a0d0a1f648c463d212806201107296b07363f112c48'' @
     ''5c6f6876071f051106285c693535473567261520193b48152047652514743b0b'' @
     ''102e41874d3834215f5a186126192018226b1188845821770e302a395a342642'' @
     ''676c24123a544d1c664773075e6c285a75342d1b691715351677034a2d1f0f14'' @
     ''6a5c61815a520f8d706a35183c150e391a21235d3432533c731a705c59621c11'' @
     ''67654331102f413662657a2301282135186a6b6a5e6528861d321e4613031d2c'' @
     ''1f701f2f591f4d5f761654834f6d416f19030f132e0c3d144577172912542b0d'' @
     ''5f087e23587b2b4846445d0c274a2d35041e682428325144810e85518b68221a'' @
     ''70453e1836360e27414c743437362a''"

text \<open>\<^verbatim>\<open>hex.DecodeString\<close> on a two-character string: both characters must be hexadecimal
  digits, of either case.\<close>

definition hex_val :: "char \<Rightarrow> nat option" where
  "hex_val c =
     (let n = (of_char c :: nat) in
      if 48 \<le> n \<and> n \<le> 57 then Some (n - 48)
      else if 97 \<le> n \<and> n \<le> 102 then Some (n - 87)
      else if 65 \<le> n \<and> n \<le> 70 then Some (n - 55)
      else None)"

text \<open>
  The loop of \<^verbatim>\<open>decryptAPIKey\<close>, two characters at a time; \<open>pos\<close> is \<^verbatim>\<open>i / 2\<close>. A pair that
  does not decode is skipped (\<^verbatim>\<open>continue\<close>); a single trailing character ends the loop.
  \<^verbatim>\<open>(int(b[0]) - pos % 17) & 0xFF\<close> is the subtraction of bytes.
\<close>

fun decrypt_loop :: "nat \<Rightarrow> string \<Rightarrow> 8 word list" where
  "decrypt_loop pos (a # b # rest) =
     (case (hex_val a, hex_val b) of
        (Some hi, Some lo) \<Rightarrow>
          ((of_nat (16 * hi + lo) - of_nat (pos mod 17))
             XOR (decryptKey ! (pos mod length decryptKey)))
          # decrypt_loop (Suc pos) rest
      | _ \<Rightarrow> decrypt_loop (Suc pos) rest)"
| "decrypt_loop pos [a] = []"
| "decrypt_loop pos [] = []"

definition decryptAPIKey :: string where
  "decryptAPIKey = map (\<lambda>b. char_of (unat b)) (decrypt_loop 0 encryptedAPIKey)"

text \<open>
  \<^verbatim>\<open>GetUpstreamAPIKey\<close>. \<open>envKey\<close> is what \<^verbatim>\<open>os.Getenv("UPSTREAM_API_KEY")\<close> returns (empty
  when unset); the state is the \<^verbatim>\<open>sync.Once\<close> and the cached key.
\<close>

record key_state =
  once_done :: bool
  cachedAPIKey :: string

definition key_state_init :: key_state where
  "key_state_init = \<lparr>once_done = False, cachedAPIKey = []\<rparr>"

definition GetUpstreamAPIKey :: "string \<Rightarrow> key_state \<Rightarrow> string \<times> key_state" where
  "GetUpstreamAPIKey envKey ks =
     (if envKey \<noteq> [] then (envKey, ks\<lparr>once_done := True\<rparr>)
      else
        (let ks1 = (if once_done ks then ks
                    else ks\<lparr>once_done := True, cachedAPIKey := decryptAPIKey\<rparr>)
         in (cachedAPIKey ks1, ks1)))"

text \<open>
  The program never changes its environment, so every call of a run sees the same
  \<open>envKey\<close>. In every state such a run reaches, a consumed \<^verbatim>\<open>sync.Once\<close> with an
  unset variable means that the cached key is the decrypted one.
\<close>

definition key_state_ok :: "string \<Rightarrow> key_state \<Rightarrow> bool" where
  "key_state_ok envKey ks =
     (if envKey = [] \<and> once_done ks then cachedAPIKey ks = decryptAPIKey else True)"

subsection \<open>Headers of a direct upstream request\<close>

text \<open>What the \<^verbatim>\<open>proxy.Random*\<close> functions returned for this request.\<close>

record browser_headers =
  AcceptLanguage :: string
  UserAgent :: string
  SecChUa :: string
  SecChUaMobile :: string
  SecChUaPlatform :: string

text \<open>
  \<^verbatim>\<open>setUpstreamHeaders\<close> on the header map of the request (\<^verbatim>\<open>req.Header.Set\<close>; the keys are
  written as in the source). The result is the header map and the credential state
  after the call of \<^verbatim>\<open>GetUpstreamAPIKey\<close>.
\<close>

definition setUpstreamHeaders :: "browser_headers \<Rightarrow> string \<Rightarrow> key_state \<Rightarrow> Model option
    \<Rightarrow> (string \<rightharpoonup> string) \<Rightarrow> (string \<rightharpoonup> string) \<times> key_state" where
  "setUpstreamHeaders rnd envKey ks model hdr =
     (let (apiKey, ks1) = GetUpstreamAPIKey envKey ks;
          h = hdr(''Content-Type'' \<mapsto> ''application/json'',
                  ''Accept'' \<mapsto> ''*/*'',
                  ''Accept-Language'' \<mapsto> AcceptLanguage rnd,
                  ''User-Agent'' \<mapsto> UserAgent rnd,
                  ''sec-ch-ua'' \<mapsto> SecChUa rnd,
                  ''sec-ch-ua-mobile'' \<mapsto> SecChUaMobile rnd,
                  ''sec-ch-ua-platform'' \<mapsto> SecChUaPlatform rnd,
                  ''sec-fetch-dest'' \<mapsto> ''empty'',
                  ''sec-fetch-mode'' \<mapsto> ''cors'',
                  ''sec-fetch-site'' \<mapsto> ''same-origin'',
                  ''Priority'' \<mapsto> ''u=1, i'',
                  ''Referer'' \<mapsto> ''https://theoldllm.vercel.app/'',
                  ''Origin'' \<mapsto> ''https://theoldllm.vercel.app'');
          shouldSendAuth = (case model of
                              None \<Rightarrow> True
                            | Some m \<Rightarrow>
                                (if Category m = ''kO'' \<or> Category m = ''CO'' then False
                                 else True))
      in if shouldSendAuth \<and> apiKey \<noteq> []
         then (h(''apikey'' \<mapsto> apiKey, ''Authorization'' \<mapsto> ''Bearer '' @ apiKey), ks1)
         else (h, ks1))"

text \<open>The two categories of the claim, in the words of the specification.\<close>

definition credential_free :: "Model option \<Rightarrow> bool" where
  "credential_free model =
     (case model of None \<Rightarrow> False | Some m \<Rightarrow> Category m = ''kO'' \<or> Category m = ''CO'')"

definition demo_browser :: browser_headers where
  "demo_browser = \<lparr>AcceptLanguage = ''en-US,en;q=0.9'', UserAgent = ''Mozilla/5.0'',
     SecChUa = ''Chromium'', SecChUaMobile = ''?0'', SecChUaPlatform = ''Linux''\<rparr>"

definition mk_model :: "string \<Rightarrow> string \<Rightarrow> string \<Rightarrow> int \<Rightarrow> Model" where
  "mk_model i owner cat pid = \<lparr>Model_ID = i, Model_Object = ''model'', Model_Created = 0,
     OwnedBy = owner, APIProvider = [], Category = cat, PersonaID = pid\<rparr>"

section \<open>Model registry and persona routing caches\<close>

record Persona =
  Persona_ID :: int
  Persona_Name :: string
  Persona_Description :: string
  LLMModelProviderOverride :: string
  LLMModelVersionOverride :: string
  IsPublic :: bool

text \<open>
  The package variables \<^verbatim>\<open>personaCache\<close> and \<^verbatim>\<open>modelsCache\<close> are pointers, \<^verbatim>\<open>nil\<close> until
  the \<^verbatim>\<open>Init\<close> function has run: an \<^typ>\<open>'a option\<close>. The background loops call
  \<^verbatim>\<open>refresh\<close> again and again; the result of the fetch or of the file load is a
  parameter of \<^verbatim>\<open>refresh\<close> (\<open>Inl\<close> an error), and so is the clock.
\<close>

record PersonaCache =
  personas :: "Persona list"
  modelToPersona :: "string \<rightharpoonup> Persona"
  pc_lastFetched :: time

definition PersonaCache_refresh :: "'e + Persona list \<Rightarrow> time \<Rightarrow> PersonaCache \<Rightarrow> PersonaCache" where
  "PersonaCache_refresh fetched now pc =
     (case fetched of
        Inl err \<Rightarrow> pc
      | Inr ps \<Rightarrow>
          pc\<lparr>personas := ps,
             modelToPersona :=
               foldl (\<lambda>m p. if LLMModelVersionOverride p \<noteq> []
                              then m(LLMModelVersionOverride p \<mapsto> p) else m)
                 Map.empty ps,
             pc_lastFetched := now\<rparr>)"

definition InitPersonaCache :: "'e + Persona list \<Rightarrow> time \<Rightarrow> PersonaCache option" where
  "InitPersonaCache fetched now =
     Some (PersonaCache_refresh fetched now
       \<lparr>personas = [], modelToPersona = Map.empty, pc_lastFetched = 0\<rparr>)"


text \<open>\<^verbatim>\<open>getModels\<close>: the loop carries the list built so far and the \<^verbatim>\<open>seen\<close> set.\<close>

definition getModels_step :: "time \<Rightarrow> Model list \<times> string set \<Rightarrow> Persona
    \<Rightarrow> Model list \<times> string set" where
  "getModels_step now acc p =
     (case acc of (models, seen) \<Rightarrow>
        if LLMModelVersionOverride p = [] then (models, seen)
        else if LLMModelVersionOverride p \<in> seen then (models, seen)
        else (models @ [\<lparr>Model_ID = LLMModelVersionOverride p, Model_Object = ''model'',
                          Model_Created = now, OwnedBy = LLMModelProviderOverride p,
                          APIProvider = [], Category = [], PersonaID = 0\<rparr>],
              insert (LLMModelVersionOverride p) seen))"

definition getModels :: "PersonaCache \<Rightarrow> time \<Rightarrow> Model list" where
  "getModels pc now = fst (foldl (getModels_step now) ([], {}) (personas pc))"

definition GetModelsFromPersonas :: "PersonaCache option \<Rightarrow> time \<Rightarrow> Model list" where
  "GetModelsFromPersonas cache now =
     (case cache of None \<Rightarrow> [] | Some pc \<Rightarrow> getModels pc now)"

subsection \<open>Model registry\<close>

record InternalModelConfig =
  IMC_ID :: string
  IMC_Name :: string
  Provider :: string
  IMC_APIProvider :: string
  IMC_PersonaID :: int

record ModelsConfig =
  AO :: "InternalModelConfig list"
  KO :: "InternalModelConfig list"
  CO :: "InternalModelConfig list"

record ModelsCache =
  models :: "Model list"
  mc_lastFetched :: time

definition addModels :: "time \<Rightarrow> InternalModelConfig list \<Rightarrow> string \<Rightarrow> Model list" where
  "addModels now items category =
     map (\<lambda>item. \<lparr>Model_ID = IMC_ID item, Model_Object = ''model'', Model_Created = now,
                   OwnedBy = Provider item, APIProvider = IMC_APIProvider item,
                   Category = category, PersonaID = IMC_PersonaID item\<rparr>) items"

text \<open>\<^verbatim>\<open>loadModels\<close>: \<open>file\<close> is the outcome of reading and decoding \<^verbatim>\<open>models.json\<close>.\<close>

definition loadModels :: "'e + ModelsConfig \<Rightarrow> time \<Rightarrow> 'e + Model list" where
  "loadModels file now =
     (case file of
        Inl err \<Rightarrow> Inl err
      | Inr config \<Rightarrow>
          Inr (addModels now (AO config) ''AO'' @ addModels now (KO config) ''kO''
               @ addModels now (CO config) ''CO''))"

definition getDefaultModels :: "Model list" where
  "getDefaultModels = []"

text \<open>\<^verbatim>\<open>ModelsCache.refresh\<close>: on a failed load, existing models are kept; with none, the
  models derived from the personas are stored when there are any.\<close>

definition ModelsCache_refresh :: "'e + ModelsConfig \<Rightarrow> PersonaCache option \<Rightarrow> time
    \<Rightarrow> ModelsCache \<Rightarrow> ModelsCache" where
  "ModelsCache_refresh file pcache now mc =
     (case loadModels file now of
        Inl err \<Rightarrow>
          (if 0 < length (models mc) then mc
           else
             (let personaModels = GetModelsFromPersonas pcache now;
                  ms = (if 0 < length personaModels then personaModels else [])
              in mc\<lparr>models := ms, mc_lastFetched := now\<rparr>))
      | Inr ms \<Rightarrow> mc\<lparr>models := ms, mc_lastFetched := now\<rparr>)"

definition InitModelsCache :: "'e + ModelsConfig \<Rightarrow> PersonaCache option \<Rightarrow> time
    \<Rightarrow> ModelsCache option" where
  "InitModelsCache file pcache now =
     Some (ModelsCache_refresh file pcache now \<lparr>models = [], mc_lastFetched = 0\<rparr>)"

definition GetModels :: "ModelsCache \<Rightarrow> Model list" where
  "GetModels mc = (if length (models mc) = 0 then getDefaultModels else models mc)"


definition GetAvailableModels :: "ModelsCache option \<Rightarrow> Model list" where
  "GetAvailableModels cache =
     (case cache of None \<Rightarrow> getDefaultModels | Some mc \<Rightarrow> GetModels mc)"


text \<open>The handler of \<^verbatim>\<open>GET /v1/models\<close>.\<close>

definition Models :: "string \<Rightarrow> ModelsCache option \<Rightarrow> ResponseWriter \<Rightarrow> ResponseWriter" where
  "Models method cache w =
     (if method \<noteq> ''GET''
      then writeError w 405 ''Method not allowed'' ''invalid_request_error''
      else Write (ModelsJSON \<lparr>List_Object = ''list'', Data = GetAvailableModels cache\<rparr>)
             (Header_Set ''Content-Type'' ''application/json'' w))"

subsection \<open>A chat-completions request, up to the upstream call\<close>






subsection \<open>Caches for the examples\<close>

definition mk_persona :: "int \<Rightarrow> string \<Rightarrow> string \<Rightarrow> Persona" where
  "mk_persona i provider version = \<lparr>Persona_ID = i, Persona_Name = [], Persona_Description = [],
     LLMModelProviderOverride = provider, LLMModelVersionOverride = version, IsPublic = True\<rparr>"

text \<open>The persona cache of the scenario: one entry, override model \<^verbatim>\<open>m1\<close>, provider
  \<^verbatim>\<open>acme\<close>; a registry whose file never loads; and a registry with one model of each
  category.\<close>

definition persona_m1 :: "PersonaCache option" where
  "persona_m1 = InitPersonaCache (Inr [mk_persona 7 ''acme'' ''m1''] :: unit + Persona list) 0"

definition persona_none :: "PersonaCache option" where
  "persona_none = InitPersonaCache (Inl () :: unit + Persona list) 0"







text \<open>A run in which the first persona fetch fails, the registry is initialised (its
  file does not load), and a later persona refresh succeeds.\<close>

definition registry_unloaded :: "ModelsCache option" where
  "registry_unloaded = InitModelsCache (Inl () :: unit + ModelsConfig) persona_none 1"

definition persona_late :: "PersonaCache option" where
  "persona_late =
     map_option (PersonaCache_refresh (Inr [mk_persona 7 ''acme'' ''m1''] :: unit + Persona list) 2)
       persona_none"

section \<open>Theorems: egress dispatcher\<close>

subsection \<open>Path selection\<close>

lemma getNextProxy_length: "length (proxies (snd (getNextProxy now c))) = length (proxies c)"
  by (simp add: getNextProxy_def Let_def split: option.splits)

lemma touch_Healthy:
  "Healthy (ps[i := (ps ! i)\<lparr>LastUsed := t\<rparr>] ! j) = Healthy (ps ! j)"
  by (cases "i < length ps"; cases "i = j") (simp_all add: list_update_beyond)

lemma touch_FailCount:
  "FailCount (ps[i := (ps ! i)\<lparr>LastUsed := t\<rparr>] ! j) = FailCount (ps ! j)"
  by (cases "i < length ps"; cases "i = j") (simp_all add: list_update_beyond)

lemma getNextProxy_Healthy:
  "Healthy (proxies (snd (getNextProxy now c)) ! j) = Healthy (proxies c ! j)"
  by (simp add: getNextProxy_def Let_def touch_Healthy split: option.splits)

lemma getNextProxy_FailCount:
  "FailCount (proxies (snd (getNextProxy now c)) ! j) = FailCount (proxies c ! j)"
  by (simp add: getNextProxy_def Let_def touch_FailCount split: option.splits)

lemma getNextProxy_health: "health (snd (getNextProxy now c)) = health c"
  by (rule nth_equalityI)
     (simp_all add: health_def getNextProxy_length getNextProxy_Healthy getNextProxy_FailCount)

lemma getNextProxy_cursor:
  "proxies c \<noteq> [] \<Longrightarrow> currentIdx (snd (getNextProxy now c)) = currentIdx c + 1"
  by (simp add: getNextProxy_def Let_def split: option.splits)

lemma scan_order_hd:
  "0 < n \<Longrightarrow> scan_order start n = (start mod n) # map (\<lambda>i. (start + i) mod n) [1..<n]"
  by (simp add: scan_order_def upt_conv_Cons)

lemma getNextProxy_hit:
  assumes "j < length (proxies c)" "Healthy (proxies c ! j)"
    and "unat (currentIdx c + 1) mod length (proxies c) = j"
  shows "fst (getNextProxy now c) = Some j"
proof -
  have n: "0 < length (proxies c)" using assms(1) by (cases "proxies c") simp_all
  have ne: "proxies c \<noteq> []" using n by simp
  show ?thesis
    using assms ne by (simp add: getNextProxy_def Let_def scan_order_hd [OF n])
qed

lemma find_scan_order_range:
  "List.find P (scan_order s n) = Some i \<Longrightarrow> i < n \<and> P i"
  by (auto simp: find_Some_iff scan_order_def)

lemma residue_hit:
  assumes "j < (n::nat)" "n \<le> k"
  shows "\<exists>i<k. (s + i) mod n = j"
proof -
  let ?i = "(j + n - s mod n) mod n"
  have n: "0 < n" using assms by simp
  have "s mod n \<le> j + n" using n by (simp add: less_imp_le_nat trans_le_add2)
  then have e: "s mod n + (j + n - s mod n) = j + n" by simp
  have "(s + ?i) mod n = (s mod n + (j + n - s mod n)) mod n"
    by (simp add: mod_add_left_eq mod_add_right_eq)
  also have "\<dots> = j" using assms(1) by (simp add: e)
  finally have "(s + ?i) mod n = j" .
  moreover have "?i < k" using n assms(2) by (meson mod_less_divisor less_le_trans)
  ultimately show ?thesis by blast
qed

lemma getNextProxy_skips:
  assumes "\<exists>p\<in>set (proxies c). Healthy p" "fst (getNextProxy now c) = Some i"
  shows "i < length (proxies c) \<and> Healthy (proxies c ! i)"
proof -
  let ?n = "length (proxies c)"
  let ?s = "unat (currentIdx c + 1)"
  from assms(1) obtain j where j: "j < ?n" "Healthy (proxies c ! j)"
    by (auto simp: in_set_conv_nth)
  then have n: "proxies c \<noteq> []" by auto
  from residue_hit [of j ?n ?n ?s] j obtain d where d: "d < ?n" "(?s + d) mod ?n = j"
    by auto
  then have "j \<in> set (scan_order ?s ?n)"
    by (auto simp: scan_order_def)
  with j have "List.find (\<lambda>idx. Healthy (proxies c ! idx)) (scan_order ?s ?n) \<noteq> None"
    by (auto simp: find_None_iff)
  then obtain i' where f: "List.find (\<lambda>idx. Healthy (proxies c ! idx)) (scan_order ?s ?n) = Some i'"
    by auto
  with assms(2) n have "i = i'" by (simp add: getNextProxy_def Let_def)
  with find_scan_order_range [OF f] show ?thesis by simp
qed

lemma getNextProxy_all_unhealthy:
  assumes "proxies c \<noteq> []" "\<forall>p\<in>set (proxies c). \<not> Healthy p"
  shows "fst (getNextProxy now c) = Some 0"
proof -
  have "List.find (\<lambda>idx. Healthy (proxies c ! idx))
          (scan_order (unat (currentIdx c + 1)) (length (proxies c))) = None"
    using assms by (auto simp: find_None_iff scan_order_def)
  then show ?thesis using assms(1) by (simp add: getNextProxy_def Let_def)
qed

lemma selections_cover:
  assumes "j < length (proxies c)" "Healthy (proxies c ! j)"
    and "i < k" "(unat (currentIdx c) + 1 + i) mod length (proxies c) = j"
    and "unat (currentIdx c) + k < 2 ^ 32"
  shows "Some j \<in> set (selections k now c)"
  using assms
proof (induction k arbitrary: c i)
  case 0
  then show ?case by simp
next
  case (Suc k)
  obtain p c1 where g: "getNextProxy now c = (p, c1)" by (cases "getNextProxy now c")
  have ne: "proxies c \<noteq> []" using Suc.prems(1) by auto
  have u: "unat (currentIdx c + 1) = unat (currentIdx c) + 1"
    using Suc.prems(5) by (simp add: unat_word_ariths)
  show ?case
  proof (cases i)
    case 0
    with Suc.prems u have "fst (getNextProxy now c) = Some j"
      by (intro getNextProxy_hit) simp_all
    with g show ?thesis by simp
  next
    case (Suc i')
    have c1: "c1 = snd (getNextProxy now c)" using g by simp
    have "Some j \<in> set (selections k now c1)"
    proof (rule Suc.IH [where i = i'])
      show "j < length (proxies c1)" using Suc.prems(1) by (simp add: c1 getNextProxy_length)
      show "Healthy (proxies c1 ! j)" using Suc.prems(2) by (simp add: c1 getNextProxy_Healthy)
      show "i' < k" using Suc.prems(3) Suc by simp
      show "(unat (currentIdx c1) + 1 + i') mod length (proxies c1) = j"
        using Suc.prems(4) Suc u by (simp add: c1 getNextProxy_length getNextProxy_cursor [OF ne])
      show "unat (currentIdx c1) + k < 2 ^ 32"
        using Suc.prems(5) u by (simp add: c1 getNextProxy_cursor [OF ne])
    qed
    with g show ?thesis by simp
  qed
qed


lemma getNextProxy_all_healthy:
  assumes "list_all Healthy (proxies c)" "proxies c \<noteq> []"
  shows "fst (getNextProxy now c) = Some (unat (currentIdx c + 1) mod length (proxies c))"
proof -
  let ?n = "length (proxies c)"
  have n: "0 < ?n" using assms(2) by simp
  have "unat (currentIdx c + 1) mod ?n < ?n" using n by simp
  then have "Healthy (proxies c ! (unat (currentIdx c + 1) mod ?n))"
    using assms(1) by (simp add: list_all_length)
  then show ?thesis
    using assms(2) by (simp add: getNextProxy_def Let_def scan_order_hd [OF n])
qed

lemma getNextProxy_list_all_Healthy:
  "list_all Healthy (proxies (snd (getNextProxy now c))) = list_all Healthy (proxies c)"
  by (simp add: list_all_length getNextProxy_length getNextProxy_Healthy)

lemma selections_all_healthy:
  assumes "list_all Healthy (proxies c)" "proxies c \<noteq> []"
  shows "selections k now c
    = map (\<lambda>i. Some (unat (currentIdx c + 1 + of_nat i) mod length (proxies c))) [0..<k]"
  using assms
proof (induction k arbitrary: c)
  case 0
  then show ?case by simp
next
  case (Suc k)
  obtain p c1 where g: "getNextProxy now c = (p, c1)" by (cases "getNextProxy now c")
  then have c1: "c1 = snd (getNextProxy now c)" and p: "p = fst (getNextProxy now c)" by simp_all
  have ne1: "proxies c1 \<noteq> []"
    using Suc.prems(2) getNextProxy_length [of now c] by (auto simp: c1)
  have ah1: "list_all Healthy (proxies c1)"
    using Suc.prems(1) by (simp add: c1 getNextProxy_list_all_Healthy)
  have ih: "selections k now c1
    = map (\<lambda>i. Some (unat (currentIdx c + 1 + of_nat (Suc i)) mod length (proxies c))) [0..<k]"
    using Suc.IH [OF ah1 ne1]
    by (simp add: c1 getNextProxy_length getNextProxy_cursor [OF Suc.prems(2)] ac_simps)
  have "[0..<Suc k] = 0 # map Suc [0..<k]"
    by (simp add: upt_conv_Cons map_Suc_upt del: upt_Suc)
  then have "map (\<lambda>i. Some (unat (currentIdx c + 1 + of_nat i) mod length (proxies c))) [0..<Suc k]
    = Some (unat (currentIdx c + 1) mod length (proxies c))
      # map (\<lambda>i. Some (unat (currentIdx c + 1 + of_nat (Suc i)) mod length (proxies c))) [0..<k]"
    by (simp add: comp_def del: upt_Suc)
  then show ?case
    using g ih getNextProxy_all_healthy [OF Suc.prems] p by (simp del: upt_Suc)
qed

text \<open>
  C5 (as amended). Path selection scans round-robin from the cursor and skips unhealthy
  paths. For a pool of \<open>length (proxies c)\<close> paths, any \<open>k\<close> consecutive selections with
  \<open>k\<close> at least the pool size, no health change in between and no wrap-around of the
  32-bit cursor within them, return every healthy path at least once (so \<open>N + 1\<close>
  selections cover a pool of \<open>N\<close> paths that are all healthy). While some path is
  healthy, only healthy paths are returned. When every path is unhealthy, the first
  path of the pool is returned all the same.
\<close>

theorem getNextProxy_round_robin:
  "(j < length (proxies c) \<and> Healthy (proxies c ! j) \<and> length (proxies c) \<le> k
      \<and> unat (currentIdx c) + k < 2 ^ 32
     \<longrightarrow> Some j \<in> set (selections k now c))
   \<and> ((\<exists>p\<in>set (proxies c). Healthy p) \<and> fst (getNextProxy now c) = Some i
     \<longrightarrow> i < length (proxies c) \<and> Healthy (proxies c ! i))
   \<and> (proxies c \<noteq> [] \<and> (\<forall>p\<in>set (proxies c). \<not> Healthy p)
     \<longrightarrow> fst (getNextProxy now c) = Some 0)"
proof (intro conjI impI)
  assume a: "j < length (proxies c) \<and> Healthy (proxies c ! j) \<and> length (proxies c) \<le> k
      \<and> unat (currentIdx c) + k < 2 ^ 32"
  then obtain i where "i < k" "(unat (currentIdx c) + 1 + i) mod length (proxies c) = j"
    using residue_hit [of j "length (proxies c)" k "unat (currentIdx c) + 1"] by auto
  with a show "Some j \<in> set (selections k now c)"
    by (intro selections_cover [where i = i]) simp_all
next
  assume "(\<exists>p\<in>set (proxies c). Healthy p) \<and> fst (getNextProxy now c) = Some i"
  then show "i < length (proxies c)" "Healthy (proxies c ! i)"
    using getNextProxy_skips [of c now i] by simp_all
next
  assume "proxies c \<noteq> [] \<and> (\<forall>p\<in>set (proxies c). \<not> Healthy p)"
  then show "fst (getNextProxy now c) = Some 0"
    using getNextProxy_all_unhealthy by simp
qed


theorem getNextProxy_round_robin_witness:
  "(0 < length (proxies pool_gap) \<and> Healthy (proxies pool_gap ! 0)
      \<and> length (proxies pool_gap) \<le> 4 \<and> unat (currentIdx pool_gap) + 4 < 2 ^ 32)
   \<and> Some 0 \<in> set (selections 4 0 pool_gap)
   \<and> fst (getNextProxy 0 pool_gap) = Some 3
   \<and> Healthy (proxies pool_gap ! 3)
   \<and> proxies pool_down \<noteq> [] \<and> list_all (\<lambda>p. \<not> Healthy p) (proxies pool_down)
   \<and> fst (getNextProxy 0 pool_down) = Some 0"
proof -
  have h1: "0 < length (proxies pool_gap) \<and> Healthy (proxies pool_gap ! 0)
      \<and> length (proxies pool_gap) \<le> 4 \<and> unat (currentIdx pool_gap) + 4 < 2 ^ 32"
    by (simp add: pool_gap_def mk_status_def)
  have h2: "(\<exists>p\<in>set (proxies pool_gap). Healthy p) \<and> fst (getNextProxy 0 pool_gap) = Some 3"
    by (simp add: pool_gap_def mk_status_def getNextProxy_def scan_order_def upt_conv_Cons)
  have h3: "proxies pool_down \<noteq> [] \<and> (\<forall>p\<in>set (proxies pool_down). \<not> Healthy p)"
    by (simp add: pool_down_def mk_status_def)
  have h3': "list_all (\<lambda>p. \<not> Healthy p) (proxies pool_down)"
    using h3 by (simp add: list_all_iff)
  from getNextProxy_round_robin [where j = 0 and c = pool_gap and k = 4 and now = 0 and i = 3]
    h1 h2
  have a: "Some 0 \<in> set (selections 4 0 pool_gap)" "Healthy (proxies pool_gap ! 3)"
    by blast+
  from getNextProxy_round_robin [where c = pool_down and now = 0] h3
  have b: "fst (getNextProxy 0 pool_down) = Some 0"
    by blast
  from h1 h2 h3 h3' a b show ?thesis by blast
qed

text \<open>
  The claim as stated fails: in \<open>pool_gap\<close> two of the four paths are healthy (\<open>N = 2\<close>),
  and \<open>N + 1 = 3\<close> consecutive selections return the path at index 3 three times; the
  healthy path at index 0 is not selected.
\<close>

theorem getNextProxy_round_robin_counterexample:
  "map Healthy (proxies pool_gap) = [True, False, False, True]
   \<and> selections 3 0 pool_gap = [Some 3, Some 3, Some 3]
   \<and> Some 0 \<notin> set (selections 3 0 pool_gap)"
proof -
  have a: "map Healthy (proxies pool_gap) = [True, False, False, True]"
    by code_simp
  have b: "selections 3 0 pool_gap = [Some 3, Some 3, Some 3]"
    by code_simp
  show ?thesis by (simp add: a b)
qed

text \<open>
  Across the wrap-around of the cursor the residues jump: with seven healthy paths and
  the cursor at \<open>2^32 - 4\<close>, eight consecutive selections miss the paths 5 and 6. This
  is why the theorem above asks for no wrap-around within the selections.
\<close>

lemma getNextProxy_wrap_gap:
  "selections 8 0 pool_wrap
     = [Some 1, Some 2, Some 3, Some 0, Some 1, Some 2, Some 3, Some 4]"
proof -
  have a: "list_all Healthy (proxies pool_wrap)" "proxies pool_wrap \<noteq> []"
    by (simp_all add: pool_wrap_def mk_status_def)
  have u: "[0..<8] = [0, 1, 2, 3, 4, 5, 6, 7::nat]"
    by (simp add: upt_conv_Cons)
  show ?thesis
    unfolding selections_all_healthy [OF a] u
    by (simp add: pool_wrap_def)
qed

subsection \<open>Health bookkeeping\<close>

lemma checkProxy_success:
  assumes "i < length (proxies c)" "URL (Config (proxies c ! i)) \<in> proxyClients c"
  shows "Healthy (proxies (checkProxy True now i c) ! i)
       \<and> FailCount (proxies (checkProxy True now i c) ! i) = 0"
  using assms by (simp add: checkProxy_def Let_def)

lemma Do_loop_success_step:
  assumes "net k (fst (getNextProxy (clock k) c)) = Inr r"
  shows "fst (Do_loop net clock (Suc n) k c) = Inr r
       \<and> snd (snd (Do_loop net clock (Suc n) k c)) = snd (getNextProxy (clock k) c)"
  using assms by (cases "getNextProxy (clock k) c") (simp add: Let_def)

lemma Do_no_error_health:
  assumes "\<And>p. net 0 p = Inr r"
  shows "fst (Do net clock c) = Inr r \<and> health (snd (snd (Do net clock c))) = health c"
proof (cases "\<not> ProxyEnabled c \<or> length (proxies c) = 0")
  case True
  then show ?thesis using assms by (auto simp: Do_def)
next
  case False
  show ?thesis
  proof (cases "nat (ProxyRetryCount c)")
    case 0
    with False assms show ?thesis by (simp add: Do_def)
  next
    case (Suc n)
    have "net 0 (fst (getNextProxy (clock 0) c)) = Inr r" by (rule assms)
    with Do_loop_success_step [of net 0 clock c r n] False Suc
    show ?thesis by (simp add: Do_def getNextProxy_health)
  qed
qed

lemma pool_one_run:
  "Do net_fail_once (\<lambda>k. 0) pool_one
     = (Inr (), ''http://p0'',
        pool_one\<lparr>currentIdx := 2, proxies := [(mk_status ''http://p0'' True 1)]\<rparr>)"
  by (simp add: Do_def pool_one_def NewClient_def net_fail_once_def mk_status_def
      numeral_3_eq_3 getNextProxy_def scan_order_def markProxyFailed_def Let_def word_sle_eq)

text \<open>
  C2 (as amended). A successful health probe of a path resets its failure counter to
  zero and marks it healthy. A dispatched request that comes back without a transport
  error does neither: the attempt leaves the counter and the health flag of every path,
  the one it went through included, as they were before the attempt (\<open>Do\<close> only ever
  counts failures, through \<open>markProxyFailed\<close>); a dispatch whose first attempt
  succeeds leaves the whole health table unchanged.
\<close>

theorem egress_success_effect:
  "(i < length (proxies c) \<and> URL (Config (proxies c ! i)) \<in> proxyClients c
      \<longrightarrow> Healthy (proxies (checkProxy True now i c) ! i)
        \<and> FailCount (proxies (checkProxy True now i c) ! i) = 0)
   \<and> (net k (fst (getNextProxy (clock k) c)) = Inr r
      \<longrightarrow> fst (Do_loop net clock (Suc n) k c) = Inr r
        \<and> health (snd (snd (Do_loop net clock (Suc n) k c))) = health c)
   \<and> ((\<forall>p. net' 0 p = Inr r)
      \<longrightarrow> fst (Do net' clock c) = Inr r \<and> health (snd (snd (Do net' clock c))) = health c)"
  using checkProxy_success [of i c now] Do_loop_success_step [of net k clock c r n]
    Do_no_error_health [of net' r clock c]
  by (simp add: getNextProxy_health)

theorem egress_success_effect_witness:
  "(0 < length (proxies pool_down) \<and> URL (Config (proxies pool_down ! 0)) \<in> proxyClients pool_down)
   \<and> Healthy (proxies (checkProxy True 7 0 pool_down) ! 0)
   \<and> FailCount (proxies (checkProxy True 7 0 pool_down) ! 0) = 0
   \<and> net_fail_once 1 (fst (getNextProxy 0 pool_down)) = Inr ()
   \<and> fst (Do_loop net_fail_once (\<lambda>k. 0) (Suc 2) 1 pool_down) = Inr ()
   \<and> health (snd (snd (Do_loop net_fail_once (\<lambda>k. 0) (Suc 2) 1 pool_down))) = health pool_down
   \<and> fst (Do (\<lambda>k p. Inr ()) (\<lambda>k. 0) pool_down) = (Inr () :: unit + unit)
   \<and> health (snd (snd (Do (\<lambda>k p. Inr () :: unit + unit) (\<lambda>k. 0) pool_down))) = [(False, 3), (False, 4)]"
proof -
  have h1: "0 < length (proxies pool_down) \<and> URL (Config (proxies pool_down ! 0)) \<in> proxyClients pool_down"
    by (simp add: pool_down_def mk_status_def)
  have h2: "net_fail_once 1 (fst (getNextProxy 0 pool_down)) = Inr ()"
    by (simp add: net_fail_once_def)
  have h3: "\<forall>p. (\<lambda>k p. Inr () :: unit + unit) 0 p = Inr ()" by simp
  have h4: "health pool_down = [(False, 3), (False, 4)]"
    by (simp add: health_def pool_down_def mk_status_def)
  from egress_success_effect [where i = 0 and c = pool_down and now = 7 and net = net_fail_once
      and k = 1 and clock = "\<lambda>k. 0" and r = "()" and n = 2 and net' = "\<lambda>k p. Inr ()"]
    h1 h2 h3 h4
  show ?thesis by simp
qed

text \<open>
  The claim as stated fails for dispatched requests: on the one-proxy client built by
  \<open>NewClient\<close>, a dispatch whose first attempt fails and whose second attempt succeeds
  through the same proxy returns the response with no error, and the proxy's failure
  counter is 1 afterwards, not 0.
\<close>

theorem egress_success_effect_counterexample:
  "(case Do net_fail_once (\<lambda>k. 0) pool_one of
      (res, used, c') \<Rightarrow>
        res = Inr () \<and> used = ''http://p0''
        \<and> FailCount (proxies c' ! 0) = 1 \<and> FailCount (proxies c' ! 0) \<noteq> 0)"
  by (simp add: pool_one_run mk_status_def)

section \<open>Theorems: transcoder\<close>

lemma foldl_append_filter:
  "foldl (\<lambda>acc x. if P x then acc @ [f x] else acc) acc xs = acc @ map f (filter P xs)"
  by (induction xs arbitrary: acc) simp_all

lemma GetTextContent_multipart:
  "IsMultiPart mc \<Longrightarrow>
   GetTextContent mc = Join (map Part_Text (filter (\<lambda>p. Part_Type p = ''text'') (Parts mc))) nl"
  by (simp add: GetTextContent_def foldl_append_filter)

lemma convert_foldl:
  "foldl (\<lambda>parts msg.
             (let textContent = GetTextContent (Content msg) in
              if Role msg = ''system'' then parts @ [''[System]: '' @ textContent]
              else if Role msg = ''user'' then parts @ [''[User]: '' @ textContent]
              else if Role msg = ''assistant'' then parts @ [''[Assistant]: '' @ textContent]
              else parts)) acc msgs
   = acc @ map segment (filter known_role msgs)"
  by (induction msgs arbitrary: acc)
     (simp_all add: Let_def segment_def known_role_def role_prefix_def)

lemma Convert_eq:
  "ConvertMessagesToSingleMessage msgs = Join (map segment (filter known_role msgs)) (nl @ nl)"
  by (simp add: ConvertMessagesToSingleMessage_def convert_foldl)

lemma Join_contains:
  "x \<in> set xs \<Longrightarrow> \<exists>pre post. Join xs sep = pre @ x @ post"
proof (induction xs sep rule: Join.induct)
  case (1 sep)
  then show ?case by simp
next
  case (2 y sep)
  then have "Join [y] sep = [] @ x @ []" by simp
  then show ?case by blast
next
  case (3 a b ys sep)
  show ?case
  proof (cases "x = a")
    case True
    then have "Join (a # b # ys) sep = [] @ x @ (sep @ Join (b # ys) sep)" by simp
    then show ?thesis by blast
  next
    case False
    with 3 obtain pre post where "Join (b # ys) sep = pre @ x @ post" by auto
    then have "Join (a # b # ys) sep = (a @ sep @ pre) @ x @ post" by simp
    then show ?thesis by blast
  qed
qed

text \<open>
  C8 (as amended). The messages whose role is \<^verbatim>\<open>system\<close>, \<^verbatim>\<open>user\<close> or \<^verbatim>\<open>assistant\<close>
  are flattened, in their order, into one string of role-prefixed segments
  (\<^verbatim>\<open>[System]: \<close>, \<^verbatim>\<open>[User]: \<close>, \<^verbatim>\<open>[Assistant]: \<close>) separated by a blank line; a message
  with any other role contributes nothing. For a multi-part content with only text
  parts the text is every part joined by a newline in the original order, and the
  segment of every message with one of the three roles stands in the flattened string.
\<close>

theorem flatten_history:
  "ConvertMessagesToSingleMessage msgs = Join (map segment (filter known_role msgs)) (nl @ nl)
   \<and> (IsMultiPart mc \<and> list_all (\<lambda>p. Part_Type p = ''text'') (Parts mc)
        \<longrightarrow> GetTextContent mc = Join (map Part_Text (Parts mc)) nl)
   \<and> (m \<in> set msgs \<and> known_role m
        \<longrightarrow> (\<exists>pre post. ConvertMessagesToSingleMessage msgs
               = pre @ role_prefix (Role m) @ GetTextContent (Content m) @ post))
   \<and> (\<not> known_role m
        \<longrightarrow> ConvertMessagesToSingleMessage (xs @ m # ys) = ConvertMessagesToSingleMessage (xs @ ys))"
proof (intro conjI impI)
  show "ConvertMessagesToSingleMessage msgs = Join (map segment (filter known_role msgs)) (nl @ nl)"
    by (rule Convert_eq)
next
  assume a: "IsMultiPart mc \<and> list_all (\<lambda>p. Part_Type p = ''text'') (Parts mc)"
  then have "filter (\<lambda>p. Part_Type p = ''text'') (Parts mc) = Parts mc"
    by (simp add: list_all_iff)
  with a show "GetTextContent mc = Join (map Part_Text (Parts mc)) nl"
    by (simp add: GetTextContent_multipart)
next
  assume "m \<in> set msgs \<and> known_role m"
  then have "segment m \<in> set (map segment (filter known_role msgs))" by simp
  from Join_contains [OF this, of "nl @ nl"]
  show "\<exists>pre post. ConvertMessagesToSingleMessage msgs
               = pre @ role_prefix (Role m) @ GetTextContent (Content m) @ post"
    by (simp add: Convert_eq segment_def)
next
  assume "\<not> known_role m"
  then show "ConvertMessagesToSingleMessage (xs @ m # ys) = ConvertMessagesToSingleMessage (xs @ ys)"
    by (simp add: Convert_eq)
qed

theorem flatten_history_witness:
  "(IsMultiPart (Content (parts_message ''user'' [''a'', ''b'']))
      \<and> list_all (\<lambda>p. Part_Type p = ''text'') (Parts (Content (parts_message ''user'' [''a'', ''b'']))))
   \<and> GetTextContent (Content (parts_message ''user'' [''a'', ''b''])) = ''a'' @ nl @ ''b''
   \<and> known_role (parts_message ''user'' [''a'', ''b''])
   \<and> ConvertMessagesToSingleMessage
        [text_message ''system'' ''be brief'', parts_message ''user'' [''a'', ''b'']]
      = ''[System]: be brief'' @ nl @ nl @ ''[User]: a'' @ nl @ ''b''
   \<and> \<not> known_role (text_message ''tool'' ''42'')
   \<and> ConvertMessagesToSingleMessage
        ([text_message ''user'' ''hi''] @ text_message ''tool'' ''42'' # [])
      = ConvertMessagesToSingleMessage ([text_message ''user'' ''hi''] @ [])"
proof -
  let ?m = "parts_message ''user'' [''a'', ''b'']"
  let ?t = "text_message ''tool'' ''42''"
  let ?msgs = "[text_message ''system'' ''be brief'', ?m]"
  have h1: "IsMultiPart (Content ?m) \<and> list_all (\<lambda>p. Part_Type p = ''text'') (Parts (Content ?m))"
    by (simp add: parts_message_def)
  have h2: "known_role ?m" "?m \<in> set ?msgs"
    by (simp_all add: parts_message_def known_role_def)
  have h3: "\<not> known_role ?t"
    by (simp add: text_message_def known_role_def)
  note inst = flatten_history [where mc = "Content ?m" and msgs = ?msgs and m = ?m]
  have a: "GetTextContent (Content ?m) = ''a'' @ nl @ ''b''"
    using inst h1 by (simp add: parts_message_def)
  have b: "ConvertMessagesToSingleMessage ?msgs
      = ''[System]: be brief'' @ nl @ nl @ ''[User]: a'' @ nl @ ''b''"
    using inst a
    by (simp add: segment_def role_prefix_def known_role_def text_message_def
        parts_message_def GetTextContent_def)
  have c: "ConvertMessagesToSingleMessage ([text_message ''user'' ''hi''] @ ?t # [])
      = ConvertMessagesToSingleMessage ([text_message ''user'' ''hi''] @ [])"
    using flatten_history [where m = ?t and xs = "[text_message ''user'' ''hi'']" and ys = "[]"] h3
    by blast
  from h1 h2 h3 a b c show ?thesis by blast
qed

text \<open>
  The claim as stated fails: a history with a \<^verbatim>\<open>tool\<close> message is not flattened in
  full. The tool message leaves no segment, and a history that holds nothing else
  becomes the empty string.
\<close>

theorem flatten_history_counterexample:
  "ConvertMessagesToSingleMessage [text_message ''user'' ''hi'', text_message ''tool'' ''42'']
     = ''[User]: hi''
   \<and> ConvertMessagesToSingleMessage [text_message ''tool'' ''42''] = []"
  by (simp add: ConvertMessagesToSingleMessage_def text_message_def GetTextContent_def)

section \<open>Theorems: non-streaming aggregator\<close>

lemma last_or_Nil [simp]: "last_or d [] = d"
  by (simp add: last_or_def)

lemma last_or_snoc [simp]: "last_or d (xs @ [x]) = x"
  by (simp add: last_or_def)

lemma last_or_append: "last_or d (xs @ ys) = last_or (last_or d xs) ys"
  by (cases ys rule: rev_cases) (simp_all flip: append_assoc)

lemma last_or_Cons: "last_or d (x # xs) = last_or x xs"
  using last_or_append [of d "[x]" xs] last_or_snoc [of d "[]" x] by simp

lemma map_filter_append_simp:
  "List.map_filter f (xs @ ys) = List.map_filter f xs @ List.map_filter f ys"
  by (simp add: List.map_filter_def)

text \<open>The loop over the choices of one chunk.\<close>

lemma choices_content:
  "ns_content (foldl nonstream_choice st chs)
     = ns_content st @ concat (map (Delta_Content \<circ> Choice_Delta) chs)"
  by (induction chs arbitrary: st) (simp_all add: nonstream_choice_def)

lemma choices_reasoning:
  "ns_reasoningContent (foldl nonstream_choice st chs)
     = ns_reasoningContent st @ concat (map (Delta_ReasoningContent \<circ> Choice_Delta) chs)"
  by (induction chs arbitrary: st) (simp_all add: nonstream_choice_def)

lemma choices_finish:
  "ns_finishReason (foldl nonstream_choice st chs)
     = last_or (ns_finishReason st) (List.map_filter FinishReason chs)"
  by (induction chs arbitrary: st)
     (simp_all add: nonstream_choice_def last_or_Cons
        split: option.splits)

lemma choices_others:
  "ns_id (foldl nonstream_choice st chs) = ns_id st"
  "ns_model (foldl nonstream_choice st chs) = ns_model st"
  "ns_usage (foldl nonstream_choice st chs) = ns_usage st"
  "ns_chunkCount (foldl nonstream_choice st chs) = ns_chunkCount st"
  by (induction chs arbitrary: st) (simp_all add: nonstream_choice_def)

text \<open>One chunk.\<close>

lemma chunk_content:
  "ns_content (nonstream_chunk st c)
     = ns_content st @ concat (map (Delta_Content \<circ> Choice_Delta) (Choices c))"
  by (simp add: nonstream_chunk_def Let_def choices_content split: option.splits)

lemma chunk_reasoning:
  "ns_reasoningContent (nonstream_chunk st c)
     = ns_reasoningContent st @ concat (map (Delta_ReasoningContent \<circ> Choice_Delta) (Choices c))"
  by (simp add: nonstream_chunk_def Let_def choices_reasoning split: option.splits)

lemma chunk_finish:
  "ns_finishReason (nonstream_chunk st c)
     = last_or (ns_finishReason st) (List.map_filter FinishReason (Choices c))"
  by (simp add: nonstream_chunk_def Let_def choices_finish split: option.splits)

lemma chunk_id:
  "ns_id (nonstream_chunk st c) = (if ns_id st = [] then Chunk_ID c else ns_id st)"
  by (simp add: nonstream_chunk_def Let_def choices_others split: option.splits)

lemma chunk_model:
  "ns_model (nonstream_chunk st c) = (if ns_model st = [] then Chunk_Model c else ns_model st)"
  by (simp add: nonstream_chunk_def Let_def choices_others split: option.splits)

lemma chunk_usage:
  "ns_usage (nonstream_chunk st c)
     = (case Chunk_Usage c of None \<Rightarrow> ns_usage st | Some u \<Rightarrow> Some u)"
  by (simp add: nonstream_chunk_def Let_def choices_others split: option.splits)

text \<open>The whole sequence of chunks.\<close>

lemma chunks_content:
  "ns_content (foldl nonstream_chunk st cs)
     = ns_content st @ concat (map (Delta_Content \<circ> Choice_Delta) (concat (map Choices cs)))"
  by (induction cs arbitrary: st) (simp_all add: chunk_content)

lemma chunks_reasoning:
  "ns_reasoningContent (foldl nonstream_chunk st cs)
     = ns_reasoningContent st
       @ concat (map (Delta_ReasoningContent \<circ> Choice_Delta) (concat (map Choices cs)))"
  by (induction cs arbitrary: st) (simp_all add: chunk_reasoning)

lemma chunks_finish:
  "ns_finishReason (foldl nonstream_chunk st cs)
     = last_or (ns_finishReason st) (List.map_filter FinishReason (concat (map Choices cs)))"
  by (induction cs arbitrary: st)
     (simp_all add: chunk_finish map_filter_append_simp last_or_append)

lemma chunks_usage:
  "ns_usage (foldl nonstream_chunk st cs)
     = last_or (ns_usage st) (map Some (List.map_filter Chunk_Usage cs))"
  by (induction cs arbitrary: st)
     (simp_all add: chunk_usage last_or_Cons
        split: option.splits)

lemma first_nonempty_Cons:
  "first_nonempty (x # xs) = (if x = [] then first_nonempty xs else x)"
  by (simp add: first_nonempty_def)

lemma chunks_id:
  "ns_id (foldl nonstream_chunk st cs)
     = (if ns_id st = [] then first_nonempty (map Chunk_ID cs) else ns_id st)"
  by (induction cs arbitrary: st)
     (simp_all add: chunk_id first_nonempty_Cons, simp add: first_nonempty_def)

lemma chunks_model:
  "ns_model (foldl nonstream_chunk st cs)
     = (if ns_model st = [] then first_nonempty (map Chunk_Model cs) else ns_model st)"
  by (induction cs arbitrary: st)
     (simp_all add: chunk_model first_nonempty_Cons, simp add: first_nonempty_def)

text \<open>The loop over the lines is the loop over the chunks it decodes.\<close>

lemma lines_as_chunks:
  "foldl (nonstream_line um) st lines = foldl nonstream_chunk st (chunks_seen um lines)"
  by (induction lines arbitrary: st)
     (simp_all add: chunks_seen_def nonstream_line_def
        split: option.splits)

lemma nonstream_response_eq:
  "handleNonStreamResponse um now lines None w =
     (let cs = chunks_seen um lines; chs = concat (map Choices cs) in
      Write (CompletionJSON
          \<lparr>Resp_ID = first_nonempty (map Chunk_ID cs),
           Resp_Object = ''chat.completion'',
           Resp_Created = now,
           Resp_Model = first_nonempty (map Chunk_Model cs),
           Resp_Choices = [\<lparr>CC_Index = 0,
             CC_Message = \<lparr>Role = ''assistant'',
               Content = \<lparr>Text = concat (map (Delta_Content \<circ> Choice_Delta) chs),
                          Parts = [], IsMultiPart = False\<rparr>,
               ReasoningContent = concat (map (Delta_ReasoningContent \<circ> Choice_Delta) chs)\<rparr>,
             CC_FinishReason = last_or [] (List.map_filter FinishReason chs)\<rparr>],
           Resp_Usage = last_or None (map Some (List.map_filter Chunk_Usage cs))\<rparr>)
        (WriteHeader 200 (Header_Set ''Content-Type'' ''application/json'' w)))"
proof -
  let ?st = "foldl (nonstream_line um) nonstream_init lines"
  let ?cs = "chunks_seen um lines"
  let ?chs = "concat (map Choices ?cs)"
  define R where "R = concat (map (Delta_ReasoningContent \<circ> Choice_Delta) ?chs)"
  have st: "ns_id ?st = first_nonempty (map Chunk_ID ?cs)"
    "ns_model ?st = first_nonempty (map Chunk_Model ?cs)"
    "ns_content ?st = concat (map (Delta_Content \<circ> Choice_Delta) ?chs)"
    "ns_reasoningContent ?st = R"
    "ns_finishReason ?st = last_or [] (List.map_filter FinishReason ?chs)"
    "ns_usage ?st = last_or None (map Some (List.map_filter Chunk_Usage ?cs))"
    by (simp_all add: lines_as_chunks chunks_id chunks_model chunks_content chunks_reasoning
        chunks_finish chunks_usage nonstream_init_def R_def)
  show ?thesis
    unfolding handleNonStreamResponse_def Let_def st R_def [symmetric]
    by (cases R) simp_all
qed

lemma demo_body_chunks:
  "chunks_seen demo_chunk demo_body
     = [mk_chunk ''id-1'' ''m'' ''Hel'' None None,
        mk_chunk ''id-2'' [] ''lo'' None
          (Some \<lparr>PromptTokens = 1, CompletionTokens = 1, TotalTokens = 2,
                  ReasoningTokens = None\<rparr>),
        mk_chunk [] [] [] (Some ''stop'')
          (Some \<lparr>PromptTokens = 3, CompletionTokens = 2, TotalTokens = 5,
                  ReasoningTokens = None\<rparr>)]"
  by (simp add: chunks_seen_def demo_body_def demo_chunk_def chunk_text_def HasPrefix_def
      TrimPrefix_def)

lemma skip_malformed_line:
  assumes "line \<noteq> []" "line \<noteq> ''data: [DONE]''" "um (chunk_text line) = None"
  shows "nonstream_line um st line = st"
  using assms by (simp add: nonstream_line_def)

lemma skip_malformed_anywhere:
  assumes "line \<noteq> []" "line \<noteq> ''data: [DONE]''" "um (chunk_text line) = None"
  shows "handleNonStreamResponse um now (xs @ line # ys) err w
       = handleNonStreamResponse um now (xs @ ys) err w"
  using assms by (simp add: handleNonStreamResponse_def skip_malformed_line)

lemma chunks_content_empty:
  assumes "list_all (\<lambda>c. list_all (\<lambda>ch. Delta_Content (Choice_Delta ch) = []
             \<and> Delta_ReasoningContent (Choice_Delta ch) = []) (Choices c)) cs"
  shows "concat (map (Delta_Content \<circ> Choice_Delta) (concat (map Choices cs))) = []
       \<and> concat (map (Delta_ReasoningContent \<circ> Choice_Delta) (concat (map Choices cs))) = []"
  using assms by (auto simp: list_all_iff)

text \<open>
  C3. For every body the non-streaming handler reads to its end, the assembled response
  has as message content the concatenation, in arrival order, of the content deltas of
  every choice of every chunk consumed, as reasoning content the concatenation of the
  reasoning-content deltas, as id and model the first non-empty ones, as finish reason
  the last non-null one, and as usage the last non-null usage object.
\<close>

theorem handleNonStreamResponse_aggregates:
  "\<exists>r msg fin.
     handleNonStreamResponse um now lines None w
       = Write (CompletionJSON r)
           (WriteHeader 200 (Header_Set ''Content-Type'' ''application/json'' w))
     \<and> Resp_Choices r = [\<lparr>CC_Index = 0, CC_Message = msg, CC_FinishReason = fin\<rparr>]
     \<and> Text (Content msg)
         = concat (map (Delta_Content \<circ> Choice_Delta)
             (concat (map Choices (chunks_seen um lines))))
     \<and> ReasoningContent msg
         = concat (map (Delta_ReasoningContent \<circ> Choice_Delta)
             (concat (map Choices (chunks_seen um lines))))
     \<and> Resp_ID r = first_nonempty (map Chunk_ID (chunks_seen um lines))
     \<and> Resp_Model r = first_nonempty (map Chunk_Model (chunks_seen um lines))
     \<and> fin = last_or [] (List.map_filter FinishReason
                 (concat (map Choices (chunks_seen um lines))))
     \<and> Resp_Usage r = last_or None (map Some (List.map_filter Chunk_Usage (chunks_seen um lines)))"
proof -
  let ?cs = "chunks_seen um lines"
  let ?chs = "concat (map Choices ?cs)"
  let ?msg = "\<lparr>Role = ''assistant'',
      Content = \<lparr>Text = concat (map (Delta_Content \<circ> Choice_Delta) ?chs),
                 Parts = [], IsMultiPart = False\<rparr>,
      ReasoningContent = concat (map (Delta_ReasoningContent \<circ> Choice_Delta) ?chs)\<rparr>"
  let ?fin = "last_or [] (List.map_filter FinishReason ?chs)"
  let ?r = "\<lparr>Resp_ID = first_nonempty (map Chunk_ID ?cs),
      Resp_Object = ''chat.completion'', Resp_Created = now,
      Resp_Model = first_nonempty (map Chunk_Model ?cs),
      Resp_Choices = [\<lparr>CC_Index = 0, CC_Message = ?msg, CC_FinishReason = ?fin\<rparr>],
      Resp_Usage = last_or None (map Some (List.map_filter Chunk_Usage ?cs))\<rparr>"
  have "handleNonStreamResponse um now lines None w
       = Write (CompletionJSON ?r)
           (WriteHeader 200 (Header_Set ''Content-Type'' ''application/json'' w))"
    by (simp add: nonstream_response_eq Let_def)
  then show ?thesis
    by (intro exI [of _ ?r] exI [of _ ?msg] exI [of _ ?fin]) simp
qed

text \<open>The scenario of the specification: chunks with content \<^verbatim>\<open>Hel\<close> then \<^verbatim>\<open>lo\<close> and a
  final chunk with finish reason \<^verbatim>\<open>stop\<close>.\<close>

theorem handleNonStreamResponse_aggregates_witness:
  "\<exists>r. handleNonStreamResponse demo_chunk 0 demo_body None new_writer
         = Write (CompletionJSON r)
             (WriteHeader 200 (Header_Set ''Content-Type'' ''application/json'' new_writer))
       \<and> map (Text \<circ> Content \<circ> CC_Message) (Resp_Choices r) = [''Hello'']
       \<and> map (ReasoningContent \<circ> CC_Message) (Resp_Choices r) = [[]]
       \<and> map CC_FinishReason (Resp_Choices r) = [''stop'']
       \<and> Resp_ID r = ''id-1'' \<and> Resp_Model r = ''m''
       \<and> Resp_Usage r = Some \<lparr>PromptTokens = 3, CompletionTokens = 2, TotalTokens = 5,
                               ReasoningTokens = None\<rparr>"
proof -
  from handleNonStreamResponse_aggregates [of demo_chunk 0 demo_body new_writer]
  obtain r msg fin where
    r: "handleNonStreamResponse demo_chunk 0 demo_body None new_writer
         = Write (CompletionJSON r)
             (WriteHeader 200 (Header_Set ''Content-Type'' ''application/json'' new_writer))"
    and ch: "Resp_Choices r = [\<lparr>CC_Index = 0, CC_Message = msg, CC_FinishReason = fin\<rparr>]"
    and t: "Text (Content msg)
         = concat (map (Delta_Content \<circ> Choice_Delta)
             (concat (map Choices (chunks_seen demo_chunk demo_body))))"
    and rc: "ReasoningContent msg
         = concat (map (Delta_ReasoningContent \<circ> Choice_Delta)
             (concat (map Choices (chunks_seen demo_chunk demo_body))))"
    and i: "Resp_ID r = first_nonempty (map Chunk_ID (chunks_seen demo_chunk demo_body))"
    and m: "Resp_Model r = first_nonempty (map Chunk_Model (chunks_seen demo_chunk demo_body))"
    and f: "fin = last_or [] (List.map_filter FinishReason
                 (concat (map Choices (chunks_seen demo_chunk demo_body))))"
    and u: "Resp_Usage r
         = last_or None (map Some (List.map_filter Chunk_Usage (chunks_seen demo_chunk demo_body)))"
    by (elim exE conjE)
  have "map (Text \<circ> Content \<circ> CC_Message) (Resp_Choices r) = [''Hello'']"
    by (simp add: ch t demo_body_chunks mk_chunk_def)
  moreover have "map (ReasoningContent \<circ> CC_Message) (Resp_Choices r) = [[]]"
    by (simp add: ch rc demo_body_chunks mk_chunk_def)
  moreover have "map CC_FinishReason (Resp_Choices r) = [''stop'']"
    by (simp add: ch f demo_body_chunks mk_chunk_def
        last_or_def)
  moreover have "Resp_ID r = ''id-1''" "Resp_Model r = ''m''"
    by (simp_all add: i m demo_body_chunks mk_chunk_def first_nonempty_def)
  moreover have "Resp_Usage r = Some \<lparr>PromptTokens = 3, CompletionTokens = 2, TotalTokens = 5,
                               ReasoningTokens = None\<rparr>"
    by (simp add: u demo_body_chunks mk_chunk_def
        last_or_def)
  ultimately show ?thesis using r by (intro exI [of _ r]) simp
qed

text \<open>The scanner: its error is absent exactly when the reading ended without error and
  every line fits the buffer, and then it delivers every line.\<close>

lemma raw_lines_no_newline:
  "CHR 0x0A \<notin> set cs \<Longrightarrow> raw_lines cur cs = (if cur @ cs = [] then [] else [cur @ cs])"
  by (induction cs arbitrary: cur) auto

lemma takeWhile_short:
  "(length (takeWhile P xs) < length xs) = (\<not> list_all P xs)"
proof -
  have "length (takeWhile P xs) \<le> length xs"
    by (rule length_takeWhile_le)
  moreover have "(length (takeWhile P xs) = length xs) = (takeWhile P xs = xs)"
    by (metis takeWhile_eq_take take_all_iff order_refl)
  ultimately show ?thesis
    by (auto simp add: takeWhile_eq_all_conv list_all_iff)
qed

lemma scan_body_err:
  "snd (scan_body data read_err)
   = (if list_all (\<lambda>t. length t < maxTokenSize) (raw_lines [] data) then read_err
      else Some ErrTooLong)"
  by (simp add: scan_body_def Let_def takeWhile_short)

lemma scan_body_lines:
  "list_all (\<lambda>t. length t < maxTokenSize) (raw_lines [] data)
   \<Longrightarrow> fst (scan_body data read_err) = map dropCR (raw_lines [] data)"
  by (simp add: scan_body_def Let_def takeWhile_eq_all_conv [THEN iffD2] list_all_iff)

lemma handleNonStreamBody_error:
  assumes "snd (scan_body data read_err) \<noteq> None" and "Status w = None"
  shows "handleNonStreamBody um now data read_err w
         = w\<lparr>Header := (Header w)(''Content-Type'' \<mapsto> ''application/json''),
              Status := Some 502,
              Written := Written w @ [ErrorJSON \<lparr>Err_Message = ''Failed to read upstream response'',
                                                 Err_Type = ''server_error'', Err_Code = []\<rparr>]\<rparr>"
proof -
  obtain ls e where s: "scan_body data read_err = (ls, Some e)"
    using assms(1) by (cases "scan_body data read_err") auto
  show ?thesis
    using assms(2)
    by (simp add: handleNonStreamBody_def s handleNonStreamResponse_def writeError_def
        Write_def WriteHeader_def Header_Set_def)
qed

lemma handleNonStreamBody_ok:
  assumes "snd (scan_body data read_err) = None" and "Status w = None"
  shows "handleNonStreamBody um now data read_err w
         = (let cs = chunks_seen um (fst (scan_body data read_err));
                chs = concat (map Choices cs) in
            w\<lparr>Header := (Header w)(''Content-Type'' \<mapsto> ''application/json''),
              Status := Some 200,
              Written := Written w @ [CompletionJSON
                \<lparr>Resp_ID = first_nonempty (map Chunk_ID cs),
                 Resp_Object = ''chat.completion'',
                 Resp_Created = now,
                 Resp_Model = first_nonempty (map Chunk_Model cs),
                 Resp_Choices = [\<lparr>CC_Index = 0,
                   CC_Message = \<lparr>Role = ''assistant'',
                     Content = \<lparr>Text = concat (map (Delta_Content \<circ> Choice_Delta) chs),
                                Parts = [], IsMultiPart = False\<rparr>,
                     ReasoningContent = concat (map (Delta_ReasoningContent \<circ> Choice_Delta) chs)\<rparr>,
                   CC_FinishReason = last_or [] (List.map_filter FinishReason chs)\<rparr>],
                 Resp_Usage = last_or None (map Some (List.map_filter Chunk_Usage cs))\<rparr>]\<rparr>)"
proof -
  obtain ls where s: "scan_body data read_err = (ls, None)"
    using assms(1) by (cases "scan_body data read_err") auto
  have "handleNonStreamBody um now data read_err w = handleNonStreamResponse um now ls None w"
    by (simp add: handleNonStreamBody_def s)
  then show ?thesis
    unfolding nonstream_response_eq Let_def
    using assms(2)
    by (simp add: s Write_def WriteHeader_def Header_Set_def)
qed

text \<open>
  C9. A line that does not decode is skipped: the loop state is unchanged by it, and the
  response is the one of the body without that line. The error response, status 502
  with the message \<^verbatim>\<open>Failed to read upstream response\<close>, is written exactly when the
  scanner ends with an error, which is when the reading of the body failed or when a
  line does not fit the scanner's buffer of \<open>maxTokenSize\<close> bytes, 1 MiB; in every other
  case the completion response is written with status 200, with empty text and empty
  reasoning content when the body held no content and no reasoning content.
\<close>

theorem nonstream_error_handling:
  "(line \<noteq> [] \<and> line \<noteq> ''data: [DONE]'' \<and> um (chunk_text line) = None
      \<longrightarrow> nonstream_line um st line = st
        \<and> handleNonStreamResponse um now (xs @ line # ys) err w
          = handleNonStreamResponse um now (xs @ ys) err w)
   \<and> (Status w = None
        \<and> (read_err \<noteq> None \<or> \<not> list_all (\<lambda>t. length t < maxTokenSize) (raw_lines [] data))
      \<longrightarrow> handleNonStreamBody um now data read_err w
          = w\<lparr>Header := (Header w)(''Content-Type'' \<mapsto> ''application/json''),
               Status := Some 502,
               Written := Written w
                 @ [ErrorJSON \<lparr>Err_Message = ''Failed to read upstream response'',
                               Err_Type = ''server_error'', Err_Code = []\<rparr>]\<rparr>)
   \<and> (Status w = None
        \<and> read_err = None \<and> list_all (\<lambda>t. length t < maxTokenSize) (raw_lines [] data)
      \<longrightarrow> (\<exists>r. handleNonStreamBody um now data read_err w
               = w\<lparr>Header := (Header w)(''Content-Type'' \<mapsto> ''application/json''),
                    Status := Some 200,
                    Written := Written w @ [CompletionJSON r]\<rparr>
             \<and> (list_all (\<lambda>c. list_all (\<lambda>ch. Delta_Content (Choice_Delta ch) = []
                     \<and> Delta_ReasoningContent (Choice_Delta ch) = []) (Choices c))
                   (chunks_seen um (map dropCR (raw_lines [] data)))
                \<longrightarrow> map CC_Message (Resp_Choices r)
                    = [\<lparr>Role = ''assistant'',
                        Content = \<lparr>Text = [], Parts = [], IsMultiPart = False\<rparr>,
                        ReasoningContent = []\<rparr>])))
   \<and> maxTokenSize = 1048576"
proof (intro conjI impI)
  show "maxTokenSize = 1048576"
    by (simp add: maxTokenSize_def)
next
  assume a: "line \<noteq> [] \<and> line \<noteq> ''data: [DONE]'' \<and> um (chunk_text line) = None"
  then show "nonstream_line um st line = st"
    by (simp add: skip_malformed_line)
  from a show "handleNonStreamResponse um now (xs @ line # ys) err w
          = handleNonStreamResponse um now (xs @ ys) err w"
    by (simp add: skip_malformed_anywhere)
next
  assume a: "Status w = None
        \<and> (read_err \<noteq> None \<or> \<not> list_all (\<lambda>t. length t < maxTokenSize) (raw_lines [] data))"
  then have "snd (scan_body data read_err) \<noteq> None"
    unfolding scan_body_err by auto
  from handleNonStreamBody_error [OF this] a
  show "handleNonStreamBody um now data read_err w
          = w\<lparr>Header := (Header w)(''Content-Type'' \<mapsto> ''application/json''),
               Status := Some 502,
               Written := Written w
                 @ [ErrorJSON \<lparr>Err_Message = ''Failed to read upstream response'',
                               Err_Type = ''server_error'', Err_Code = []\<rparr>]\<rparr>"
    by simp
next
  assume a: "Status w = None
        \<and> read_err = None \<and> list_all (\<lambda>t. length t < maxTokenSize) (raw_lines [] data)"
  then have e: "snd (scan_body data read_err) = None"
    unfolding scan_body_err by simp
  from a have l: "fst (scan_body data read_err) = map dropCR (raw_lines [] data)"
    by (simp add: scan_body_lines)
  let ?cs = "chunks_seen um (map dropCR (raw_lines [] data))"
  let ?chs = "concat (map Choices ?cs)"
  let ?r = "\<lparr>Resp_ID = first_nonempty (map Chunk_ID ?cs),
             Resp_Object = ''chat.completion'',
             Resp_Created = now,
             Resp_Model = first_nonempty (map Chunk_Model ?cs),
             Resp_Choices = [\<lparr>CC_Index = 0,
               CC_Message = \<lparr>Role = ''assistant'',
                 Content = \<lparr>Text = concat (map (Delta_Content \<circ> Choice_Delta) ?chs),
                            Parts = [], IsMultiPart = False\<rparr>,
                 ReasoningContent = concat (map (Delta_ReasoningContent \<circ> Choice_Delta) ?chs)\<rparr>,
               CC_FinishReason = last_or [] (List.map_filter FinishReason ?chs)\<rparr>],
             Resp_Usage = last_or None (map Some (List.map_filter Chunk_Usage ?cs))\<rparr>"
  from a have sw: "Status w = None" by simp
  have r: "handleNonStreamBody um now data read_err w
         = w\<lparr>Header := (Header w)(''Content-Type'' \<mapsto> ''application/json''),
              Status := Some 200,
              Written := Written w @ [CompletionJSON ?r]\<rparr>"
    using handleNonStreamBody_ok [OF e sw, of um now] unfolding l Let_def .
  have "list_all (\<lambda>c. list_all (\<lambda>ch. Delta_Content (Choice_Delta ch) = []
                     \<and> Delta_ReasoningContent (Choice_Delta ch) = []) (Choices c)) ?cs
        \<longrightarrow> map CC_Message (Resp_Choices ?r)
            = [\<lparr>Role = ''assistant'',
                Content = \<lparr>Text = [], Parts = [], IsMultiPart = False\<rparr>,
                ReasoningContent = []\<rparr>]"
  proof
    assume "list_all (\<lambda>c. list_all (\<lambda>ch. Delta_Content (Choice_Delta ch) = []
                     \<and> Delta_ReasoningContent (Choice_Delta ch) = []) (Choices c)) ?cs"
    from chunks_content_empty [OF this]
    show "map CC_Message (Resp_Choices ?r)
            = [\<lparr>Role = ''assistant'',
                Content = \<lparr>Text = [], Parts = [], IsMultiPart = False\<rparr>,
                ReasoningContent = []\<rparr>]"
      by simp
  qed
  with r show "\<exists>r. handleNonStreamBody um now data read_err w
               = w\<lparr>Header := (Header w)(''Content-Type'' \<mapsto> ''application/json''),
                    Status := Some 200,
                    Written := Written w @ [CompletionJSON r]\<rparr>
             \<and> (list_all (\<lambda>c. list_all (\<lambda>ch. Delta_Content (Choice_Delta ch) = []
                     \<and> Delta_ReasoningContent (Choice_Delta ch) = []) (Choices c))
                   (chunks_seen um (map dropCR (raw_lines [] data)))
                \<longrightarrow> map CC_Message (Resp_Choices r)
                    = [\<lparr>Role = ''assistant'',
                        Content = \<lparr>Text = [], Parts = [], IsMultiPart = False\<rparr>,
                        ReasoningContent = []\<rparr>])"
    by (intro exI [of _ ?r] conjI)
qed

text \<open>The three paths: a line that does not decode between two that do; a body whose
  reading ends with an error; a body that holds only the end sentinel.\<close>

theorem nonstream_error_handling_witness:
  "(''garbage'' \<noteq> [] \<and> ''garbage'' \<noteq> ''data: [DONE]''
      \<and> demo_chunk (chunk_text ''garbage'') = None)
   \<and> handleNonStreamResponse demo_chunk 0 ([''data: c1''] @ ''garbage'' # [''c3'']) None new_writer
     = handleNonStreamResponse demo_chunk 0 ([''data: c1''] @ [''c3'']) None new_writer
   \<and> Status new_writer = None
   \<and> handleNonStreamBody demo_chunk 0 (''data: c1'' @ nl @ ''data: c2'') (Some ''unexpected EOF'')
       new_writer
     = \<lparr>Header = [''Content-Type'' \<mapsto> ''application/json''], Status = Some 502,
        Written = [ErrorJSON \<lparr>Err_Message = ''Failed to read upstream response'',
                              Err_Type = ''server_error'', Err_Code = []\<rparr>]\<rparr>
   \<and> list_all (\<lambda>t. length t < maxTokenSize) (raw_lines [] (''data: [DONE]'' @ nl))
   \<and> (\<exists>r. handleNonStreamBody demo_chunk 0 (''data: [DONE]'' @ nl) None new_writer
           = \<lparr>Header = [''Content-Type'' \<mapsto> ''application/json''], Status = Some 200,
              Written = [CompletionJSON r]\<rparr>
         \<and> map CC_Message (Resp_Choices r)
           = [\<lparr>Role = ''assistant'',
               Content = \<lparr>Text = [], Parts = [], IsMultiPart = False\<rparr>,
               ReasoningContent = []\<rparr>])"
proof -
  have h1: "''garbage'' \<noteq> [] \<and> ''garbage'' \<noteq> ''data: [DONE]''
      \<and> demo_chunk (chunk_text ''garbage'') = None"
    by (simp add: demo_chunk_def chunk_text_def HasPrefix_def)
  have h2: "Status new_writer = None"
    by (simp add: new_writer_def)
  have rl: "raw_lines [] (''data: [DONE]'' @ nl) = [''data: [DONE]'']"
    by (simp add: nl_def)
  have h3: "list_all (\<lambda>t. length t < maxTokenSize) (raw_lines [] (''data: [DONE]'' @ nl))"
    unfolding rl by (simp add: maxTokenSize_def)
  have h4: "list_all (\<lambda>c. list_all (\<lambda>ch. Delta_Content (Choice_Delta ch) = []
             \<and> Delta_ReasoningContent (Choice_Delta ch) = []) (Choices c))
             (chunks_seen demo_chunk (map dropCR (raw_lines [] (''data: [DONE]'' @ nl))))"
    unfolding rl by (simp add: chunks_seen_def dropCR_def)
  note i1 = nonstream_error_handling [where line = "''garbage''" and um = demo_chunk
      and xs = "[''data: c1'']" and ys = "[''c3'']" and now = 0 and err = None
      and w = new_writer and data = "''data: c1'' @ nl @ ''data: c2''"
      and read_err = "Some ''unexpected EOF''"]
  note i2 = nonstream_error_handling [where um = demo_chunk and now = 0 and w = new_writer
      and data = "''data: [DONE]'' @ nl" and read_err = None]
  have a: "handleNonStreamResponse demo_chunk 0 ([''data: c1''] @ ''garbage'' # [''c3'']) None new_writer
     = handleNonStreamResponse demo_chunk 0 ([''data: c1''] @ [''c3'']) None new_writer"
    using i1 [THEN conjunct1] h1 by simp
  have b: "handleNonStreamBody demo_chunk 0 (''data: c1'' @ nl @ ''data: c2'') (Some ''unexpected EOF'')
       new_writer
     = \<lparr>Header = [''Content-Type'' \<mapsto> ''application/json''], Status = Some 502,
        Written = [ErrorJSON \<lparr>Err_Message = ''Failed to read upstream response'',
                              Err_Type = ''server_error'', Err_Code = []\<rparr>]\<rparr>"
    using i1 [THEN conjunct2, THEN conjunct1] h2 by (simp add: new_writer_def)
  from i2 [THEN conjunct2, THEN conjunct2, THEN conjunct1, THEN mp,
      OF conjI [OF h2 conjI [OF refl h3]]]
  obtain r where r: "handleNonStreamBody demo_chunk 0 (''data: [DONE]'' @ nl) None new_writer
               = new_writer\<lparr>Header := (Header new_writer)(''Content-Type'' \<mapsto> ''application/json''),
                    Status := Some 200,
                    Written := Written new_writer @ [CompletionJSON r]\<rparr>"
    and m: "list_all (\<lambda>c. list_all (\<lambda>ch. Delta_Content (Choice_Delta ch) = []
                     \<and> Delta_ReasoningContent (Choice_Delta ch) = []) (Choices c))
                   (chunks_seen demo_chunk (map dropCR (raw_lines [] (''data: [DONE]'' @ nl))))
                \<longrightarrow> map CC_Message (Resp_Choices r)
                    = [\<lparr>Role = ''assistant'',
                        Content = \<lparr>Text = [], Parts = [], IsMultiPart = False\<rparr>,
                        ReasoningContent = []\<rparr>]"
    by (elim exE conjE)
  have d: "\<exists>r. handleNonStreamBody demo_chunk 0 (''data: [DONE]'' @ nl) None new_writer
           = \<lparr>Header = [''Content-Type'' \<mapsto> ''application/json''], Status = Some 200,
              Written = [CompletionJSON r]\<rparr>
         \<and> map CC_Message (Resp_Choices r)
           = [\<lparr>Role = ''assistant'',
               Content = \<lparr>Text = [], Parts = [], IsMultiPart = False\<rparr>,
               ReasoningContent = []\<rparr>]"
    using r m [rule_format, OF h4] by (intro exI [of _ r]) (simp add: new_writer_def)
  from h1 h2 h3 a b d show ?thesis by (intro conjI) (assumption | simp)+
qed

text \<open>A body of one line of \<open>maxTokenSize + 1\<close> bytes, read to its end without a read
  error: the scanner stops with \<^verbatim>\<open>ErrTooLong\<close> and the error response is written.\<close>

theorem nonstream_error_handling_counterexample:
  "handleNonStreamBody demo_chunk 0 (replicate (maxTokenSize + 1) (CHR ''a'')) None new_writer
   = \<lparr>Header = [''Content-Type'' \<mapsto> ''application/json''], Status = Some 502,
      Written = [ErrorJSON \<lparr>Err_Message = ''Failed to read upstream response'',
                            Err_Type = ''server_error'', Err_Code = []\<rparr>]\<rparr>"
proof -
  define n where "n = maxTokenSize + 1"
  have n: "maxTokenSize < n" "n \<noteq> 0"
    by (simp_all add: n_def)
  have "CHR 0x0A \<notin> set (replicate n (CHR ''a''))"
    by simp
  from raw_lines_no_newline [OF this, of "[]"]
  have rl: "raw_lines [] (replicate n (CHR ''a'')) = [replicate n (CHR ''a'')]"
    using n by simp
  have "snd (scan_body (replicate n (CHR ''a'')) None) \<noteq> None"
    unfolding scan_body_err rl using n by simp
  from handleNonStreamBody_error [OF this, of new_writer demo_chunk 0]
  show ?thesis
    unfolding n_def by (simp add: new_writer_def)
qed

section \<open>Theorems: session stream\<close>

lemma session_line_empty: "session_line ua ue cid created model stream st [] = st"
  by (simp add: session_line_def)

lemma session_line_ack:
  assumes "line \<noteq> []" "ss_firstChunk st" "ua line \<noteq> None"
  shows "session_line ua ue cid created model stream st line = st\<lparr>ss_firstChunk := False\<rparr>"
  using assms by (simp add: session_line_def)

lemma session_line_event:
  assumes "line \<noteq> []" "\<not> ss_firstChunk st" "ue line = Some ev"
  shows "session_line ua ue cid created model stream st line
       = session_event cid created model stream st ev"
proof -
  have e: "st\<lparr>ss_firstChunk := False\<rparr> = st" using assms(2) by simp
  have "session_line ua ue cid created model stream st line
       = session_event cid created model stream (st\<lparr>ss_firstChunk := False\<rparr>) ev"
    using assms by (simp add: session_line_def)
  then show ?thesis by (simp only: e)
qed

lemma session_loop_Nil: "session_loop ua ue cid created model stream st [] = st"
  by (simp add: session_loop_def)

lemma session_loop_Cons:
  "session_loop ua ue cid created model stream st (l # ls)
     = session_loop ua ue cid created model stream
         (session_line ua ue cid created model stream st l) ls"
  by (simp add: session_loop_def)

lemma session_loop_blank_lines:
  "session_loop ua ue cid created model stream st (replicate n [] @ ls)
     = session_loop ua ue cid created model stream st ls"
  by (induction n) (simp_all add: session_loop_Cons session_line_empty)

lemma session_loop_ack_first:
  assumes "line \<noteq> []" "ua line \<noteq> None"
  shows "session_loop ua ue cid created model stream (session_init w) (replicate n [] @ line # rest)
       = session_loop ua ue cid created model stream
           ((session_init w)\<lparr>ss_firstChunk := False\<rparr>) rest"
  using assms
  by (simp add: session_loop_blank_lines session_loop_Cons session_line_ack session_init_def)

text \<open>The acknowledgement decode: it returns no error on an object exactly when the
  members it looks at are well typed.\<close>

lemma int_field_ok:
  "(int_field v old \<noteq> None) = (case v of JInt n \<Rightarrow> in_int64 n | JNull \<Rightarrow> True | _ \<Rightarrow> False)"
  by (cases v) (simp_all add: int_field_def)

lemma ack_member_ok:
  "snd (ack_member (r, ok) (k, v))
   = (ok \<and> (if field_match ''user_message_id'' k
                 \<or> field_match ''reserved_assistant_message_id'' k
              then (case v of JInt n \<Rightarrow> in_int64 n | JNull \<Rightarrow> True | _ \<Rightarrow> False)
              else True))"
  by (cases v) (auto simp add: ack_member_def int_field_def)

lemma ack_loop_ok:
  "snd (foldl ack_member (r, ok) ms) = (ok \<and> ack_typed ms)"
proof (induction ms arbitrary: r ok)
  case Nil
  show ?case by (simp add: ack_typed_def)
next
  case (Cons kv ms)
  obtain k v where kv: "kv = (k, v)" by (cases kv)
  obtain r' ok' where m: "ack_member (r, ok) (k, v) = (r', ok')"
    by (cases "ack_member (r, ok) (k, v)")
  have ok': "ok' = (ok \<and> (if field_match ''user_message_id'' k
                 \<or> field_match ''reserved_assistant_message_id'' k
              then (case v of JInt n \<Rightarrow> in_int64 n | JNull \<Rightarrow> True | _ \<Rightarrow> False)
              else True))"
    using ack_member_ok [of r ok k v] by (simp add: m)
  have "snd (foldl ack_member (r, ok) (kv # ms)) = snd (foldl ack_member (r', ok') ms)"
    by (simp add: kv m)
  also have "\<dots> = (ok' \<and> ack_typed ms)"
    by (rule Cons.IH)
  also have "\<dots> = (ok \<and> ack_typed (kv # ms))"
    unfolding ok' by (auto simp add: ack_typed_def kv)
  finally show ?case .
qed

lemma decode_ack_object:
  "(decode_SendMessageResponse (JObject ms) \<noteq> None) = ack_typed ms"
proof -
  obtain r ok where f: "foldl ack_member
      (\<lparr>UserMessageID = 0, ReservedAssistantMessageID = 0\<rparr>, True) ms = (r, ok)"
    by (cases "foldl ack_member (\<lparr>UserMessageID = 0, ReservedAssistantMessageID = 0\<rparr>, True) ms")
  have "ok = ack_typed ms"
    using ack_loop_ok [of "\<lparr>UserMessageID = 0, ReservedAssistantMessageID = 0\<rparr>" True ms]
    by (simp add: f)
  then show ?thesis
    by (simp add: decode_SendMessageResponse_def f)
qed

lemma unmarshalAck_ok:
  "(unmarshalAck p line \<noteq> None)
   = (case p line of
        Some JNull \<Rightarrow> True
      | Some (JObject ms) \<Rightarrow> ack_typed ms
      | _ \<Rightarrow> False)"
proof (cases "p line")
  case None
  then show ?thesis by (simp add: unmarshalAck_def)
next
  case (Some j)
  show ?thesis
  proof (cases j)
    case (JObject ms)
    then show ?thesis
      using decode_ack_object [of ms] by (simp add: unmarshalAck_def Some)
  qed (simp_all add: unmarshalAck_def Some decode_SendMessageResponse_def)
qed

text \<open>The texts of the examples, decoded.\<close>

lemma fold_name_tags:
  "fold_name ''user_message_id'' = ''user_message_id''"
  "fold_name ''reserved_assistant_message_id'' = ''reserved_assistant_message_id''"
  "fold_name ''placement'' = ''placement''"
  "fold_name ''obj'' = ''obj''"
  "fold_name ''type'' = ''type''"
  "fold_name ''content'' = ''content''"
  "fold_name ''final_documents'' = ''final_documents''"
  "fold_name ''stop_reason'' = ''stop_reason''"
  by (simp_all add: ascii_lower_def)

lemma demo_delta_event:
  "unmarshalEvent demo_parse ''delta hi'' = Some (mk_event ''message_delta'' ''hi'')"
  "unmarshalEvent demo_parse ''bad ack delta'' = Some (mk_event ''message_delta'' ''hi'')"
  by (simp_all add: unmarshalEvent_def demo_parse_def decode_ChatSessionStreamEvent_def
      event_member_def obj_member_def field_match_def fold_name_tags string_field_def
      mk_event_def)

lemma demo_bad_ack:
  "unmarshalAck demo_parse ''bad ack delta'' = None"
  by (simp add: unmarshalAck_def demo_parse_def decode_SendMessageResponse_def
      ack_member_def field_match_def fold_name_tags int_field_def)

text \<open>
  C10. The first non-empty line of a session body is consumed without any client
  output and without touching the content buffer exactly when the acknowledgement
  decode returns no error on it, and that is not the case for every JSON object: the
  decode returns no error on \<^verbatim>\<open>null\<close> and on an object in which every member named
  (up to case folding) \<^verbatim>\<open>user_message_id\<close> or \<^verbatim>\<open>reserved_assistant_message_id\<close> holds
  an integer in the 64-bit range or \<^verbatim>\<open>null\<close>, whatever its other members are. On such
  a line the loop goes on from the initial state with only \<open>firstChunk\<close> cleared, so a
  \<^verbatim>\<open>message_delta\<close> event that arrives as the first non-empty line in such an object is
  dropped: a streaming client receives nothing for it, and the aggregated response has
  empty text. An object with an ill-typed member of one of the two names is not
  consumed: it goes on to the event decode in the same iteration.
\<close>

theorem first_line_consumed_as_ack:
  "((unmarshalAck p line \<noteq> None)
      = (case p line of
           Some JNull \<Rightarrow> True
         | Some (JObject ms) \<Rightarrow> ack_typed ms
         | _ \<Rightarrow> False))
   \<and> (line \<noteq> [] \<and> ss_firstChunk st \<and> p line = Some (JObject ms) \<and> ack_typed ms
      \<longrightarrow> session_line (unmarshalAck p) (unmarshalEvent p) cid created model stream st line
          = st\<lparr>ss_firstChunk := False\<rparr>)
   \<and> (line \<noteq> [] \<and> p line = Some (JObject ms) \<and> ack_typed ms
      \<longrightarrow> session_loop (unmarshalAck p) (unmarshalEvent p) cid created model stream
            (session_init w) (replicate n [] @ line # rest)
          = session_loop (unmarshalAck p) (unmarshalEvent p) cid created model stream
              ((session_init w)\<lparr>ss_firstChunk := False\<rparr>) rest)
   \<and> (line \<noteq> [] \<and> p line = Some (JObject ms) \<and> ack_typed ms
      \<longrightarrow> Written (HandleChatSessionStream (unmarshalAck p) (unmarshalEvent p) True cid created
                     new_writer [line] None model True) = []
        \<and> (\<exists>r. HandleChatSessionStream (unmarshalAck p) (unmarshalEvent p) ok cid created
                   new_writer [line] None model False
                 = Write (CompletionJSON r)
                     (WriteHeader 200
                       (Header_Set ''Content-Type'' ''application/json'' new_writer))
               \<and> map (Text \<circ> Content \<circ> CC_Message) (Resp_Choices r) = [[]]))
   \<and> (line \<noteq> [] \<and> p line = Some (JObject ms) \<and> \<not> ack_typed ms
      \<longrightarrow> session_line (unmarshalAck p) (unmarshalEvent p) cid created model stream st line
          = (case decode_ChatSessionStreamEvent (JObject ms) of
               None \<Rightarrow> st\<lparr>ss_firstChunk := False\<rparr>
             | Some ev \<Rightarrow> session_event cid created model stream
                            (st\<lparr>ss_firstChunk := False\<rparr>) ev))"
proof (intro conjI impI)
  show "(unmarshalAck p line \<noteq> None)
      = (case p line of
           Some JNull \<Rightarrow> True
         | Some (JObject ms) \<Rightarrow> ack_typed ms
         | _ \<Rightarrow> False)"
    by (rule unmarshalAck_ok)
next
  assume a: "line \<noteq> [] \<and> ss_firstChunk st \<and> p line = Some (JObject ms) \<and> ack_typed ms"
  then have "unmarshalAck p line \<noteq> None"
    unfolding unmarshalAck_ok by simp
  with a show "session_line (unmarshalAck p) (unmarshalEvent p) cid created model stream st line
          = st\<lparr>ss_firstChunk := False\<rparr>"
    by (simp add: session_line_ack)
next
  assume a: "line \<noteq> [] \<and> p line = Some (JObject ms) \<and> ack_typed ms"
  then have "unmarshalAck p line \<noteq> None"
    unfolding unmarshalAck_ok by simp
  with a show "session_loop (unmarshalAck p) (unmarshalEvent p) cid created model stream
            (session_init w) (replicate n [] @ line # rest)
          = session_loop (unmarshalAck p) (unmarshalEvent p) cid created model stream
              ((session_init w)\<lparr>ss_firstChunk := False\<rparr>) rest"
    by (simp add: session_loop_ack_first)
next
  assume a: "line \<noteq> [] \<and> p line = Some (JObject ms) \<and> ack_typed ms"
  then have u: "unmarshalAck p line \<noteq> None"
    unfolding unmarshalAck_ok by simp
  from a have ne: "line \<noteq> []" by simp
  have l: "\<And>stream w. session_loop (unmarshalAck p) (unmarshalEvent p) cid created model stream
        (session_init w) [line]
      = (session_init w)\<lparr>ss_firstChunk := False\<rparr>"
    using session_loop_ack_first [of line "unmarshalAck p" "unmarshalEvent p" cid created model
        _ _ 0 "[]"] ne u
    by (simp add: session_loop_Nil)
  show "Written (HandleChatSessionStream (unmarshalAck p) (unmarshalEvent p) True cid created
                     new_writer [line] None model True) = []"
    unfolding HandleChatSessionStream_def Let_def l
    by (simp add: session_init_def new_writer_def WriteHeader_def Header_Set_def)
  show "\<exists>r. HandleChatSessionStream (unmarshalAck p) (unmarshalEvent p) ok cid created
                   new_writer [line] None model False
                 = Write (CompletionJSON r)
                     (WriteHeader 200
                       (Header_Set ''Content-Type'' ''application/json'' new_writer))
               \<and> map (Text \<circ> Content \<circ> CC_Message) (Resp_Choices r) = [[]]"
    unfolding HandleChatSessionStream_def Let_def l
    by (simp add: session_init_def, intro exI conjI, rule refl) simp
next
  assume a: "line \<noteq> [] \<and> p line = Some (JObject ms) \<and> \<not> ack_typed ms"
  then have "unmarshalAck p line = None"
    using unmarshalAck_ok [of p line] by simp
  with a show "session_line (unmarshalAck p) (unmarshalEvent p) cid created model stream st line
          = (case decode_ChatSessionStreamEvent (JObject ms) of
               None \<Rightarrow> st\<lparr>ss_firstChunk := False\<rparr>
             | Some ev \<Rightarrow> session_event cid created model stream
                            (st\<lparr>ss_firstChunk := False\<rparr>) ev)"
    by (simp add: session_line_def unmarshalEvent_def Let_def)
qed

text \<open>A \<^verbatim>\<open>message_delta\<close> event as the first line, in an object without any of the two
  members: it is consumed.\<close>

theorem first_line_consumed_as_ack_witness:
  "(''delta hi'' \<noteq> [] \<and> ss_firstChunk (session_init new_writer)
      \<and> demo_parse ''delta hi''
        = Some (JObject [(''obj'', JObject [(''type'', JString ''message_delta''),
                                            (''content'', JString ''hi'')])])
      \<and> ack_typed [(''obj'', JObject [(''type'', JString ''message_delta''),
                                      (''content'', JString ''hi'')])]
      \<and> unmarshalEvent demo_parse ''delta hi'' = Some (mk_event ''message_delta'' ''hi''))
   \<and> unmarshalAck demo_parse ''delta hi'' \<noteq> None
   \<and> session_line (unmarshalAck demo_parse) (unmarshalEvent demo_parse) ''chatcmpl-1'' 0 ''m''
        True (session_init new_writer) ''delta hi''
      = (session_init new_writer)\<lparr>ss_firstChunk := False\<rparr>
   \<and> session_loop (unmarshalAck demo_parse) (unmarshalEvent demo_parse) ''chatcmpl-1'' 0 ''m''
        True (session_init new_writer) (replicate 2 [] @ ''delta hi'' # [''stop''])
      = session_loop (unmarshalAck demo_parse) (unmarshalEvent demo_parse) ''chatcmpl-1'' 0 ''m''
          True ((session_init new_writer)\<lparr>ss_firstChunk := False\<rparr>) [''stop'']
   \<and> Written (HandleChatSessionStream (unmarshalAck demo_parse) (unmarshalEvent demo_parse) True
                ''chatcmpl-1'' 0 new_writer [''delta hi''] None ''m'' True) = []
   \<and> (\<exists>r. HandleChatSessionStream (unmarshalAck demo_parse) (unmarshalEvent demo_parse) True
              ''chatcmpl-1'' 0 new_writer [''delta hi''] None ''m'' False
            = Write (CompletionJSON r)
                (WriteHeader 200 (Header_Set ''Content-Type'' ''application/json'' new_writer))
          \<and> map (Text \<circ> Content \<circ> CC_Message) (Resp_Choices r) = [[]])"
proof -
  let ?ms = "[(''obj'', JObject [(''type'', JString ''message_delta''),
                                 (''content'', JString ''hi'')])]"
  have h1: "''delta hi'' \<noteq> []" by simp
  have h2: "ss_firstChunk (session_init new_writer)" by (simp add: session_init_def)
  have h3: "demo_parse ''delta hi'' = Some (JObject ?ms)" by (simp add: demo_parse_def)
  have h4: "ack_typed ?ms"
    by (simp add: ack_typed_def field_match_def fold_name_tags)
  note h5 = demo_delta_event(1)
  note inst = first_line_consumed_as_ack [where line = "''delta hi''" and p = demo_parse
      and ms = ?ms and st = "session_init new_writer"
      and cid = "''chatcmpl-1''" and created = 0 and model = "''m''" and stream = True
      and w = new_writer and n = 2 and rest = "[''stop'']" and ok = True]
  have u: "unmarshalAck demo_parse ''delta hi'' \<noteq> None"
    using inst [THEN conjunct1] h3 h4 by simp
  have a: "session_line (unmarshalAck demo_parse) (unmarshalEvent demo_parse) ''chatcmpl-1'' 0 ''m''
        True (session_init new_writer) ''delta hi''
      = (session_init new_writer)\<lparr>ss_firstChunk := False\<rparr>"
    by (rule inst [THEN conjunct2, THEN conjunct1, THEN mp])
       (intro conjI h1 h2 h3 h4)
  have b: "session_loop (unmarshalAck demo_parse) (unmarshalEvent demo_parse) ''chatcmpl-1'' 0 ''m''
        True (session_init new_writer) (replicate 2 [] @ ''delta hi'' # [''stop''])
      = session_loop (unmarshalAck demo_parse) (unmarshalEvent demo_parse) ''chatcmpl-1'' 0 ''m''
          True ((session_init new_writer)\<lparr>ss_firstChunk := False\<rparr>) [''stop'']"
    by (rule inst [THEN conjunct2, THEN conjunct2, THEN conjunct1, THEN mp])
       (intro conjI h1 h3 h4)
  have c: "Written (HandleChatSessionStream (unmarshalAck demo_parse) (unmarshalEvent demo_parse) True
                ''chatcmpl-1'' 0 new_writer [''delta hi''] None ''m'' True) = []
     \<and> (\<exists>r. HandleChatSessionStream (unmarshalAck demo_parse) (unmarshalEvent demo_parse) True
              ''chatcmpl-1'' 0 new_writer [''delta hi''] None ''m'' False
            = Write (CompletionJSON r)
                (WriteHeader 200 (Header_Set ''Content-Type'' ''application/json'' new_writer))
          \<and> map (Text \<circ> Content \<circ> CC_Message) (Resp_Choices r) = [[]])"
    by (rule inst [THEN conjunct2, THEN conjunct2, THEN conjunct2, THEN conjunct1, THEN mp])
       (intro conjI h1 h3 h4)
  from h1 h2 h3 h4 h5 u a b c [THEN conjunct1] c [THEN conjunct2]
  show ?thesis by (intro conjI) assumption+
qed

text \<open>
  The text
  \<^verbatim>\<open>{"user_message_id":"x","obj":{"type":"message_delta","content":"hi"}}\<close> is a JSON
  object, and the acknowledgement decode returns an error on it (a string for an
  integer field). As the first line of a session body it is not consumed: the
  streaming client is sent its content, and the aggregated response holds it.
\<close>

theorem first_line_consumed_as_ack_counterexample:
  "demo_parse ''bad ack delta''
     = Some (JObject [(''user_message_id'', JString ''x''),
                      (''obj'', JObject [(''type'', JString ''message_delta''),
                                         (''content'', JString ''hi'')])])
   \<and> Written (HandleChatSessionStream (unmarshalAck demo_parse) (unmarshalEvent demo_parse) True
                ''chatcmpl-1'' 0 new_writer [''bad ack delta''] None ''m'' True)
     = [SSEChunk (content_chunk ''chatcmpl-1'' 0 ''m'' ''hi'')]
   \<and> (\<exists>r. Written (HandleChatSessionStream (unmarshalAck demo_parse) (unmarshalEvent demo_parse)
                     True ''chatcmpl-1'' 0 new_writer [''bad ack delta''] None ''m'' False)
            = [CompletionJSON r]
          \<and> map (Text \<circ> Content \<circ> CC_Message) (Resp_Choices r) = [''hi''])"
proof -
  have l: "\<And>stream w. session_loop (unmarshalAck demo_parse) (unmarshalEvent demo_parse)
        ''chatcmpl-1'' 0 ''m'' stream (session_init w) [''bad ack delta'']
      = session_event ''chatcmpl-1'' 0 ''m'' stream ((session_init w)\<lparr>ss_firstChunk := False\<rparr>)
          (mk_event ''message_delta'' ''hi'')"
    by (simp add: session_loop_def session_line_def demo_bad_ack demo_delta_event)
  have p: "demo_parse ''bad ack delta''
     = Some (JObject [(''user_message_id'', JString ''x''),
                      (''obj'', JObject [(''type'', JString ''message_delta''),
                                         (''content'', JString ''hi'')])])"
    by (simp add: demo_parse_def)
  have s: "Written (HandleChatSessionStream (unmarshalAck demo_parse) (unmarshalEvent demo_parse) True
                ''chatcmpl-1'' 0 new_writer [''bad ack delta''] None ''m'' True)
     = [SSEChunk (content_chunk ''chatcmpl-1'' 0 ''m'' ''hi'')]"
    unfolding HandleChatSessionStream_def Let_def l
    by (simp add: session_event_def session_init_def mk_event_def new_writer_def
        Write_def WriteHeader_def Header_Set_def Let_def)
  have n: "\<exists>r. Written (HandleChatSessionStream (unmarshalAck demo_parse) (unmarshalEvent demo_parse)
                     True ''chatcmpl-1'' 0 new_writer [''bad ack delta''] None ''m'' False)
            = [CompletionJSON r]
          \<and> map (Text \<circ> Content \<circ> CC_Message) (Resp_Choices r) = [''hi'']"
    unfolding HandleChatSessionStream_def Let_def l
    by (simp add: session_event_def session_init_def mk_event_def new_writer_def
        Write_def WriteHeader_def Header_Set_def Let_def)
  from p s n show ?thesis by (intro conjI)
qed

text \<open>
  C1. The claim asks that a \<^verbatim>\<open>stop\<close> event ends the exchange: one terminal delta, one
  \<^verbatim>\<open>[DONE]\<close> marker, nothing after them, no further event processed. The loop of the
  handler has no exit at \<^verbatim>\<open>stop\<close>: it goes on reading. For a body that ends in a
  \<^verbatim>\<open>stop\<close> event and holds an earlier \<^verbatim>\<open>stop\<close> followed by a \<^verbatim>\<open>message_delta\<close>, the
  streaming client is sent the terminal delta and the marker twice, with a content
  delta after the first pair. This theorem evaluates the handler on such a body.
\<close>

theorem stop_is_not_terminal:
  assumes "l0 \<noteq> []" "l1 \<noteq> []" "l2 \<noteq> []" "l3 \<noteq> []"
    and "ua l0 \<noteq> None"
    and "ue l1 = Some e1" "Obj_Type (Obj e1) = ''stop''"
    and "ue l2 = Some e2" "Obj_Type (Obj e2) = ''message_delta''"
    and "ue l3 = Some e3" "Obj_Type (Obj e3) = ''stop''"
  shows "Written (HandleChatSessionStream ua ue True cid created new_writer [l0, l1, l2, l3]
                   None model True)
       = [SSEChunk (final_chunk cid created model), SSEDone,
          SSEChunk (content_chunk cid created model (Obj_Content (Obj e2))),
          SSEChunk (final_chunk cid created model), SSEDone]"
  using assms
  by (simp add: HandleChatSessionStream_def Let_def session_loop_def session_line_def
      session_event_def session_init_def new_writer_def Write_def WriteHeader_def Header_Set_def)

theorem stop_is_not_terminal_witness:
  "Written (HandleChatSessionStream demo_ack demo_event True ''chatcmpl-1'' 0 new_writer
             [''ack'', ''stop'', ''delta late'', ''stop''] None ''m'' True)
     = [SSEChunk (final_chunk ''chatcmpl-1'' 0 ''m''), SSEDone,
        SSEChunk (content_chunk ''chatcmpl-1'' 0 ''m'' ''late''),
        SSEChunk (final_chunk ''chatcmpl-1'' 0 ''m''), SSEDone]"
proof -
  have h: "''ack'' \<noteq> []" "''stop'' \<noteq> []" "''delta late'' \<noteq> []"
    "demo_ack ''ack'' \<noteq> None"
    "demo_event ''stop'' = Some (mk_event ''stop'' [])"
    "Obj_Type (Obj (mk_event ''stop'' [])) = ''stop''"
    "demo_event ''delta late'' = Some (mk_event ''message_delta'' ''late'')"
    "Obj_Type (Obj (mk_event ''message_delta'' ''late'')) = ''message_delta''"
    by (simp_all add: demo_ack_def demo_event_def mk_event_def)
  have "Obj_Content (Obj (mk_event ''message_delta'' ''late'')) = ''late''"
    by (simp add: mk_event_def)
  with stop_is_not_terminal [of "''ack''" "''stop''" "''delta late''" "''stop''" demo_ack
      demo_event "mk_event ''stop'' []" "mk_event ''message_delta'' ''late''"
      "mk_event ''stop'' []" "''chatcmpl-1''" 0 "''m''"] h
  show ?thesis by simp
qed

section \<open>Theorems: upstream credential and headers\<close>

lemma decrypt_loop_nonempty:
  assumes "hex_val a = Some hi" "hex_val b = Some lo"
  shows "decrypt_loop pos (a # b # rest) \<noteq> []"
  using assms by simp

lemma encryptedAPIKey_head: "\<exists>rest. encryptedAPIKey = CHR ''3'' # CHR ''b'' # rest"
  by (simp add: encryptedAPIKey_def)

lemma decryptAPIKey_nonempty: "decryptAPIKey \<noteq> []"
proof -
  obtain rest where r: "encryptedAPIKey = CHR ''3'' # CHR ''b'' # rest"
    using encryptedAPIKey_head by blast
  have "hex_val CHR ''3'' = Some 3" "hex_val CHR ''b'' = Some 11"
    by (simp_all add: hex_val_def)
  then have "decrypt_loop 0 (CHR ''3'' # CHR ''b'' # rest) \<noteq> []"
    by (rule decrypt_loop_nonempty)
  then show ?thesis by (simp add: decryptAPIKey_def r)
qed

lemma key_state_ok_init: "key_state_ok envKey key_state_init"
  by (simp add: key_state_ok_def key_state_init_def)

lemma GetUpstreamAPIKey_preserves:
  "key_state_ok envKey ks \<Longrightarrow> key_state_ok envKey (snd (GetUpstreamAPIKey envKey ks))"
  by (auto simp: key_state_ok_def GetUpstreamAPIKey_def Let_def split: if_splits)

lemma GetUpstreamAPIKey_nonempty:
  "key_state_ok envKey ks \<Longrightarrow> fst (GetUpstreamAPIKey envKey ks) \<noteq> []"
  by (auto simp: key_state_ok_def GetUpstreamAPIKey_def Let_def decryptAPIKey_nonempty
      split: if_splits)

lemma setUpstreamHeaders_state:
  "snd (setUpstreamHeaders rnd envKey ks model hdr) = snd (GetUpstreamAPIKey envKey ks)"
  by (simp add: setUpstreamHeaders_def Let_def split: prod.splits)

text \<open>
  C6. On the fresh header map of a direct upstream request, \<^verbatim>\<open>setUpstreamHeaders\<close>
  attaches \<^verbatim>\<open>apikey\<close> and \<^verbatim>\<open>Authorization\<close> if and only if the resolved model is not of
  category \<^verbatim>\<open>kO\<close> or \<^verbatim>\<open>CO\<close>; an unknown model (\<^verbatim>\<open>nil\<close>) receives them. The key attached
  is the one \<^verbatim>\<open>GetUpstreamAPIKey\<close> returns, which is never empty in a state the program
  reaches (the decrypted constant is not empty, and an override is used only when it is
  not empty), so the guard \<^verbatim>\<open>apiKey != ""\<close> never withholds the headers.
\<close>

theorem upstream_auth_headers:
  assumes "key_state_ok envKey ks"
  shows "(fst (setUpstreamHeaders rnd envKey ks model Map.empty) ''apikey'' \<noteq> None
            \<longleftrightarrow> \<not> credential_free model)
       \<and> (fst (setUpstreamHeaders rnd envKey ks model Map.empty) ''Authorization'' \<noteq> None
            \<longleftrightarrow> \<not> credential_free model)
       \<and> (if credential_free model
          then fst (setUpstreamHeaders rnd envKey ks model Map.empty) ''apikey'' = None
             \<and> fst (setUpstreamHeaders rnd envKey ks model Map.empty) ''Authorization'' = None
          else fst (setUpstreamHeaders rnd envKey ks model Map.empty) ''apikey''
               = Some (fst (GetUpstreamAPIKey envKey ks))
             \<and> fst (setUpstreamHeaders rnd envKey ks model Map.empty) ''Authorization''
               = Some (''Bearer '' @ fst (GetUpstreamAPIKey envKey ks))
             \<and> fst (GetUpstreamAPIKey envKey ks) \<noteq> [])
       \<and> \<not> credential_free None
       \<and> key_state_ok envKey (snd (setUpstreamHeaders rnd envKey ks model Map.empty))"
proof -
  obtain apiKey ks1 where g: "GetUpstreamAPIKey envKey ks = (apiKey, ks1)"
    by (cases "GetUpstreamAPIKey envKey ks")
  have ne: "apiKey \<noteq> []"
    using GetUpstreamAPIKey_nonempty [OF assms] g by simp
  have ok: "key_state_ok envKey ks1"
    using GetUpstreamAPIKey_preserves [OF assms] g by simp
  show ?thesis
  proof (cases "credential_free model")
    case True
    then show ?thesis
      using g ne ok
      by (auto simp: setUpstreamHeaders_def credential_free_def Let_def split: option.splits)
  next
    case False
    then show ?thesis
      using g ne ok
      by (auto simp: setUpstreamHeaders_def credential_free_def Let_def split: option.splits)
  qed
qed

theorem upstream_auth_headers_witness:
  "key_state_ok [] key_state_init
   \<and> fst (setUpstreamHeaders demo_browser [] key_state_init None Map.empty) ''apikey''
     = Some decryptAPIKey
   \<and> fst (setUpstreamHeaders demo_browser [] key_state_init None Map.empty) ''Authorization''
     = Some (''Bearer '' @ decryptAPIKey)
   \<and> decryptAPIKey \<noteq> []
   \<and> fst (setUpstreamHeaders demo_browser [] key_state_init
            (Some (mk_model ''k1'' ''acme'' ''kO'' 0)) Map.empty) ''apikey'' = None
   \<and> fst (setUpstreamHeaders demo_browser [] key_state_init
            (Some (mk_model ''k1'' ''acme'' ''kO'' 0)) Map.empty) ''Authorization'' = None
   \<and> fst (setUpstreamHeaders demo_browser ''override'' key_state_init
            (Some (mk_model ''a1'' ''acme'' ''AO'' 0)) Map.empty) ''apikey'' = Some ''override''"
proof -
  have ok: "key_state_ok [] key_state_init" "key_state_ok ''override'' key_state_init"
    by (simp_all add: key_state_ok_def key_state_init_def)
  have k: "fst (GetUpstreamAPIKey [] key_state_init) = decryptAPIKey"
    "fst (GetUpstreamAPIKey ''override'' key_state_init) = ''override''"
    by (simp_all add: GetUpstreamAPIKey_def key_state_init_def)
  have cf: "\<not> credential_free None" "credential_free (Some (mk_model ''k1'' ''acme'' ''kO'' 0))"
    "\<not> credential_free (Some (mk_model ''a1'' ''acme'' ''AO'' 0))"
    by (simp_all add: credential_free_def mk_model_def)
  have a: "fst (setUpstreamHeaders demo_browser [] key_state_init None Map.empty) ''apikey''
     = Some decryptAPIKey"
    "fst (setUpstreamHeaders demo_browser [] key_state_init None Map.empty) ''Authorization''
     = Some (''Bearer '' @ decryptAPIKey)"
    "decryptAPIKey \<noteq> []"
    using upstream_auth_headers [OF ok(1), of demo_browser None] cf(1) k(1) by simp_all
  have b: "fst (setUpstreamHeaders demo_browser [] key_state_init
            (Some (mk_model ''k1'' ''acme'' ''kO'' 0)) Map.empty) ''apikey'' = None"
    "fst (setUpstreamHeaders demo_browser [] key_state_init
            (Some (mk_model ''k1'' ''acme'' ''kO'' 0)) Map.empty) ''Authorization'' = None"
    using upstream_auth_headers [OF ok(1), of demo_browser "Some (mk_model ''k1'' ''acme'' ''kO'' 0)"]
      cf(2) by simp_all
  have c: "fst (setUpstreamHeaders demo_browser ''override'' key_state_init
            (Some (mk_model ''a1'' ''acme'' ''AO'' 0)) Map.empty) ''apikey'' = Some ''override''"
    using upstream_auth_headers [OF ok(2), of demo_browser "Some (mk_model ''a1'' ''acme'' ''AO'' 0)"]
      cf(3) k(2) by simp
  from ok(1) a b c show ?thesis by (intro conjI) assumption+
qed

section \<open>Theorems: model registry and routing\<close>

lemma getModels_step_inv:
  assumes "seen = set (map Model_ID ms)" "distinct (map Model_ID ms)"
  shows "snd (foldl (getModels_step now) (ms, seen) ps)
           = set (map Model_ID (fst (foldl (getModels_step now) (ms, seen) ps)))
       \<and> distinct (map Model_ID (fst (foldl (getModels_step now) (ms, seen) ps)))
       \<and> set (map Model_ID (fst (foldl (getModels_step now) (ms, seen) ps)))
           = set (map Model_ID ms)
             \<union> {v \<in> set (map LLMModelVersionOverride ps). v \<noteq> []}"
  using assms
proof (induction ps arbitrary: ms seen)
  case Nil
  then show ?case by simp
next
  case (Cons p ps)
  show ?case
  proof (cases "LLMModelVersionOverride p = [] \<or> LLMModelVersionOverride p \<in> seen")
    case True
    then have s: "getModels_step now (ms, seen) p = (ms, seen)"
      by (auto simp: getModels_step_def)
    have fold: "foldl (getModels_step now) (ms, seen) (p # ps)
        = foldl (getModels_step now) (ms, seen) ps"
      by (simp add: s)
    have setq: "set (map Model_ID ms) \<union> {v \<in> set (map LLMModelVersionOverride (p # ps)). v \<noteq> []}
        = set (map Model_ID ms) \<union> {v \<in> set (map LLMModelVersionOverride ps). v \<noteq> []}"
      using True Cons.prems(1) by auto
    show ?thesis
      unfolding fold setq by (rule Cons.IH [OF Cons.prems])
  next
    case False
    let ?m = "\<lparr>Model_ID = LLMModelVersionOverride p, Model_Object = ''model'',
                Model_Created = now, OwnedBy = LLMModelProviderOverride p,
                APIProvider = [], Category = [], PersonaID = 0\<rparr>"
    from False have s: "getModels_step now (ms, seen) p
        = (ms @ [?m], insert (LLMModelVersionOverride p) seen)"
      by (simp add: getModels_step_def)
    have fold: "foldl (getModels_step now) (ms, seen) (p # ps)
        = foldl (getModels_step now) (ms @ [?m], insert (LLMModelVersionOverride p) seen) ps"
      by (simp add: s)
    have a: "insert (LLMModelVersionOverride p) seen = set (map Model_ID (ms @ [?m]))"
      using Cons.prems(1) by simp
    have b: "distinct (map Model_ID (ms @ [?m]))"
      using Cons.prems False by simp
    have setq: "set (map Model_ID ms) \<union> {v \<in> set (map LLMModelVersionOverride (p # ps)). v \<noteq> []}
        = set (map Model_ID (ms @ [?m])) \<union> {v \<in> set (map LLMModelVersionOverride ps). v \<noteq> []}"
      using False by auto
    show ?thesis
      unfolding fold setq by (rule Cons.IH [OF a b])
  qed
qed

lemma getModels_owner_inv:
  assumes "\<forall>m\<in>set ms. \<exists>p\<in>set qs. Model_ID m = LLMModelVersionOverride p
             \<and> OwnedBy m = LLMModelProviderOverride p"
  shows "\<forall>m\<in>set (fst (foldl (getModels_step now) (ms, seen) ps)).
           \<exists>p\<in>set (qs @ ps). Model_ID m = LLMModelVersionOverride p
             \<and> OwnedBy m = LLMModelProviderOverride p"
  using assms
proof (induction ps arbitrary: ms seen qs)
  case Nil
  then show ?case by simp
next
  case (Cons p ps)
  obtain ms' seen' where s: "getModels_step now (ms, seen) p = (ms', seen')"
    by (cases "getModels_step now (ms, seen) p")
  have "\<forall>m\<in>set ms'. \<exists>q\<in>set (qs @ [p]). Model_ID m = LLMModelVersionOverride q
             \<and> OwnedBy m = LLMModelProviderOverride q"
    using s Cons.prems by (auto simp: getModels_step_def split: if_splits)
  from Cons.IH [OF this, of seen'] show ?case
    by (simp add: s)
qed

lemma getModels_ids:
  "distinct (map Model_ID (getModels pc now))
   \<and> set (map Model_ID (getModels pc now))
       = {v \<in> set (map LLMModelVersionOverride (personas pc)). v \<noteq> []}"
  using getModels_step_inv [of "{}" "[]" now "personas pc"]
  by (simp add: getModels_def)

lemma getModels_owner:
  "m \<in> set (getModels pc now) \<Longrightarrow>
   \<exists>p\<in>set (personas pc). Model_ID m = LLMModelVersionOverride p
      \<and> OwnedBy m = LLMModelProviderOverride p"
  using getModels_owner_inv [of "[]" "[]" now "{}" "personas pc"]
  by (simp add: getModels_def)

lemma refresh_failed_empty:
  assumes "loadModels loaded now = Inl err" "models mc = []"
  shows "GetAvailableModels (Some (ModelsCache_refresh loaded pcache now mc))
       = GetModelsFromPersonas pcache now"
  using assms
  by (cases "GetModelsFromPersonas pcache now")
     (simp_all add: ModelsCache_refresh_def GetAvailableModels_def GetModels_def
        getDefaultModels_def Let_def)

lemma refresh_failed_keeps:
  assumes "loadModels loaded now = Inl err" "models mc \<noteq> []"
  shows "ModelsCache_refresh loaded pcache now mc = mc"
  using assms by (simp add: ModelsCache_refresh_def)

lemma persona_m1_models:
  "GetModelsFromPersonas persona_m1 now
     = [\<lparr>Model_ID = ''m1'', Model_Object = ''model'', Model_Created = now, OwnedBy = ''acme'',
         APIProvider = [], Category = [], PersonaID = 0\<rparr>]"
  by (simp add: persona_m1_def InitPersonaCache_def PersonaCache_refresh_def
      GetModelsFromPersonas_def getModels_def getModels_step_def mk_persona_def)

lemma persona_late_state:
  "map_option personas persona_late = Some [mk_persona 7 ''acme'' ''m1'']"
  by (simp add: persona_late_def persona_none_def InitPersonaCache_def PersonaCache_refresh_def)

lemma registry_unloaded_state: "registry_unloaded = Some \<lparr>models = [], mc_lastFetched = 1\<rparr>"
  by (simp add: registry_unloaded_def InitModelsCache_def ModelsCache_refresh_def loadModels_def
      persona_none_def InitPersonaCache_def PersonaCache_refresh_def GetModelsFromPersonas_def
      getModels_def Let_def)

text \<open>
  C7 (as amended). The fallback to the persona cache happens when the registry is
  refreshed, not when the models are listed. A refresh whose load fails while the
  registry holds no models stores the models derived from the personas cached at that
  moment: one model per distinct non-empty override-model identifier, owned by the
  provider of a persona with that override; listing then returns them, and the empty
  sequence when there are none. A refresh whose load fails while the registry holds
  models keeps them. \<^verbatim>\<open>GET /v1/models\<close> never answers with an error, whatever the
  number of models.
\<close>

theorem registry_fallback:
  "(loadModels loaded now = Inl err \<and> models mc = []
      \<longrightarrow> GetAvailableModels (Some (ModelsCache_refresh loaded pcache now mc))
          = GetModelsFromPersonas pcache now)
   \<and> (loadModels loaded now = Inl err \<and> models mc \<noteq> []
      \<longrightarrow> ModelsCache_refresh loaded pcache now mc = mc)
   \<and> distinct (map Model_ID (GetModelsFromPersonas pcache now))
   \<and> (pcache = Some pc
      \<longrightarrow> set (map Model_ID (GetModelsFromPersonas pcache now))
          = {v \<in> set (map LLMModelVersionOverride (personas pc)). v \<noteq> []})
   \<and> (pcache = Some pc \<and> m \<in> set (GetModelsFromPersonas pcache now)
      \<longrightarrow> (\<exists>p\<in>set (personas pc). Model_ID m = LLMModelVersionOverride p
             \<and> OwnedBy m = LLMModelProviderOverride p))
   \<and> Models ''GET'' cache w
       = Write (ModelsJSON \<lparr>List_Object = ''list'', Data = GetAvailableModels cache\<rparr>)
           (Header_Set ''Content-Type'' ''application/json'' w)"
proof (intro conjI impI)
  assume "loadModels loaded now = Inl err \<and> models mc = []"
  then show "GetAvailableModels (Some (ModelsCache_refresh loaded pcache now mc))
          = GetModelsFromPersonas pcache now"
    by (simp add: refresh_failed_empty)
next
  assume "loadModels loaded now = Inl err \<and> models mc \<noteq> []"
  then show "ModelsCache_refresh loaded pcache now mc = mc"
    by (simp add: refresh_failed_keeps)
next
  show "distinct (map Model_ID (GetModelsFromPersonas pcache now))"
    using getModels_ids by (cases pcache) (simp_all add: GetModelsFromPersonas_def)
next
  assume "pcache = Some pc"
  then show "set (map Model_ID (GetModelsFromPersonas pcache now))
          = {v \<in> set (map LLMModelVersionOverride (personas pc)). v \<noteq> []}"
    using getModels_ids [of pc now] by (simp add: GetModelsFromPersonas_def)
next
  assume "pcache = Some pc \<and> m \<in> set (GetModelsFromPersonas pcache now)"
  then show "\<exists>p\<in>set (personas pc). Model_ID m = LLMModelVersionOverride p
             \<and> OwnedBy m = LLMModelProviderOverride p"
    using getModels_owner [of m pc now] by (auto simp: GetModelsFromPersonas_def)
next
  show "Models ''GET'' cache w
       = Write (ModelsJSON \<lparr>List_Object = ''list'', Data = GetAvailableModels cache\<rparr>)
           (Header_Set ''Content-Type'' ''application/json'' w)"
    by (simp add: Models_def)
qed

text \<open>The scenario of the specification, with the persona cache filled before the
  registry is initialised, as \<^verbatim>\<open>main\<close> does.\<close>

theorem registry_fallback_witness:
  "loadModels (Inl () :: unit + ModelsConfig) 5 = Inl ()
   \<and> models \<lparr>models = [], mc_lastFetched = 0\<rparr> = []
   \<and> Written (Models ''GET'' (InitModelsCache (Inl () :: unit + ModelsConfig) persona_m1 5)
                new_writer)
     = [ModelsJSON \<lparr>List_Object = ''list'',
          Data = [\<lparr>Model_ID = ''m1'', Model_Object = ''model'', Model_Created = 5,
                   OwnedBy = ''acme'', APIProvider = [], Category = [], PersonaID = 0\<rparr>]\<rparr>]
   \<and> Written (Models ''GET'' (InitModelsCache (Inl () :: unit + ModelsConfig) persona_none 5)
                new_writer)
     = [ModelsJSON \<lparr>List_Object = ''list'', Data = []\<rparr>]"
proof -
  let ?file = "Inl () :: unit + ModelsConfig"
  let ?mc = "\<lparr>models = [], mc_lastFetched = 0\<rparr>"
  have h: "loadModels ?file 5 = Inl ()" "models ?mc = []"
    by (simp_all add: loadModels_def)
  have none: "GetModelsFromPersonas persona_none 5 = []"
    by (simp add: persona_none_def InitPersonaCache_def PersonaCache_refresh_def
        GetModelsFromPersonas_def getModels_def)
  note i1 = registry_fallback [where loaded = ?file and now = 5 and err = "()" and mc = ?mc
      and pcache = persona_m1
      and cache = "InitModelsCache ?file persona_m1 5" and w = new_writer]
  note i2 = registry_fallback [where loaded = ?file and now = 5 and err = "()" and mc = ?mc
      and pcache = persona_none
      and cache = "InitModelsCache ?file persona_none 5" and w = new_writer]
  have a: "GetAvailableModels (InitModelsCache ?file persona_m1 5)
      = GetModelsFromPersonas persona_m1 5"
    using i1 [THEN conjunct1] h by (simp add: InitModelsCache_def)
  have b: "GetAvailableModels (InitModelsCache ?file persona_none 5) = []"
    using i2 [THEN conjunct1] h none by (simp add: InitModelsCache_def)
  have m1: "Models ''GET'' (InitModelsCache ?file persona_m1 5) new_writer
      = Write (ModelsJSON \<lparr>List_Object = ''list'',
                 Data = GetAvailableModels (InitModelsCache ?file persona_m1 5)\<rparr>)
          (Header_Set ''Content-Type'' ''application/json'' new_writer)"
    by (rule i1 [THEN conjunct2, THEN conjunct2, THEN conjunct2, THEN conjunct2, THEN conjunct2])
  have m2: "Models ''GET'' (InitModelsCache ?file persona_none 5) new_writer
      = Write (ModelsJSON \<lparr>List_Object = ''list'',
                 Data = GetAvailableModels (InitModelsCache ?file persona_none 5)\<rparr>)
          (Header_Set ''Content-Type'' ''application/json'' new_writer)"
    by (rule i2 [THEN conjunct2, THEN conjunct2, THEN conjunct2, THEN conjunct2, THEN conjunct2])
  have c: "Written (Models ''GET'' (InitModelsCache ?file persona_m1 5) new_writer)
     = [ModelsJSON \<lparr>List_Object = ''list'',
          Data = [\<lparr>Model_ID = ''m1'', Model_Object = ''model'', Model_Created = 5,
                   OwnedBy = ''acme'', APIProvider = [], Category = [], PersonaID = 0\<rparr>]\<rparr>]"
    unfolding m1 a persona_m1_models
    by (simp add: Write_def Header_Set_def new_writer_def)
  have d: "Written (Models ''GET'' (InitModelsCache ?file persona_none 5) new_writer)
     = [ModelsJSON \<lparr>List_Object = ''list'', Data = []\<rparr>]"
    unfolding m2 b
    by (simp add: Write_def Header_Set_def new_writer_def)
  from h c d show ?thesis by (intro conjI) assumption+
qed

text \<open>
  The claim as stated fails in a state the program reaches: the first persona fetch
  fails, the registry is initialised and its file does not load, and a later persona
  refresh succeeds. The registry has never loaded and the persona cache holds exactly
  one entry (override model \<^verbatim>\<open>m1\<close>, provider \<^verbatim>\<open>acme\<close>), yet \<^verbatim>\<open>GET /v1/models\<close> returns no
  model: listing reads the registry only.
\<close>

theorem registry_fallback_counterexample:
  "map_option models registry_unloaded = Some []
   \<and> map_option personas persona_late = Some [mk_persona 7 ''acme'' ''m1'']
   \<and> Written (Models ''GET'' registry_unloaded new_writer)
     = [ModelsJSON \<lparr>List_Object = ''list'', Data = []\<rparr>]"
  by (simp add: registry_unloaded_state persona_late_state Models_def GetAvailableModels_def
      GetModels_def getDefaultModels_def Write_def Header_Set_def new_writer_def)






end
